theory Spec2Isabelle
  imports Main "HOL-Library.Word"
begin

unbundle bit_operations_syntax

section \<open>Scanner Bot: a shallow embedding of the file-intake pipeline\<close>

text \<open>
  The development follows the Go program (package \<open>main\<close> with \<open>processEvent\<close>,
  \<open>waitForStableFile\<close>, \<open>analyzeReceipt\<close>, \<open>parseGeminiResponse\<close>, \<open>saveAndArchive\<close>,
  \<open>saveProcessedFile\<close>, \<open>archiveOriginalFile\<close>, \<open>robustCopy\<close>, \<open>robustMove\<close>).
  Go strings are byte sequences, so a Go \<open>string\<close> is a \<open>char list\<close> here; the
  standard library and the two client libraries (fsnotify, genai) are the environment
  of the program and are modelled next to the function that calls them.
\<close>

subsection \<open>Strings and paths (Go packages strings, fmt, path/filepath on Unix)\<close>

type_synonym path = string
type_synonym bytes = string

text \<open>
  \<open>strings.ReplaceAll(s, old, new)\<close>: non-overlapping occurrences of \<open>old\<close>, scanned
  from the left. The program only passes the one-byte patterns \<open>" "\<close> and \<open>"/"\<close>; for
  an empty pattern (Go then inserts \<open>new\<close> around every rune) the text is returned as is.
\<close>

function ReplaceAll :: "string \<Rightarrow> string \<Rightarrow> string \<Rightarrow> string" where
  "ReplaceAll [] old new = []"
| "ReplaceAll (c # cs) old new =
     (if old \<noteq> [] \<and> take (length old) (c # cs) = old
      then new @ ReplaceAll (drop (length old) (c # cs)) old new
      else c # ReplaceAll cs old new)"
  by pat_completeness auto
termination
  by (relation "measure (\<lambda>(s, old, new). length s)") auto

text \<open>\<open>strings.ToLower\<close>, on the ASCII letters (all that the extension test can see).\<close>

definition lower_char :: "char \<Rightarrow> char" where
  "lower_char c =
     (if 65 \<le> (of_char c :: nat) \<and> (of_char c :: nat) \<le> 90
      then char_of ((of_char c :: nat) + 32) else c)"

definition ToLower :: "string \<Rightarrow> string" where
  "ToLower s = map lower_char s"

text \<open>
  \<open>filepath.Ext\<close>: scan from the end of the path, stop at a separator, return the
  suffix that starts at the last dot of the last element.
\<close>

fun Ext_scan :: "string \<Rightarrow> string \<Rightarrow> string" where
  "Ext_scan [] acc = []"
| "Ext_scan (c # cs) acc =
     (if c = CHR ''/'' then []
      else if c = CHR ''.'' then c # acc
      else Ext_scan cs (c # acc))"

definition Ext :: "path \<Rightarrow> string" where
  "Ext p = Ext_scan (rev p) []"

text \<open>\<open>filepath.Base\<close>: the last element of the path, trailing separators removed.\<close>

definition Base :: "path \<Rightarrow> string" where
  "Base p =
     (if p = [] then ''.''
      else let q = dropWhile (\<lambda>c. c = CHR ''/'') (rev p);
               r = rev (takeWhile (\<lambda>c. c \<noteq> CHR ''/'') q)
           in if r = [] then ''/'' else r)"

text \<open>
  \<open>filepath.Clean\<close> and \<open>filepath.Join\<close>: the elements between separators are
  processed from the left; empty elements and \<open>.\<close> disappear, \<open>..\<close> removes the
  element before it (and is dropped at the root, kept at the start of a relative path).
\<close>

fun split_sep :: "string \<Rightarrow> string \<Rightarrow> string list" where
  "split_sep [] cur = [rev cur]"
| "split_sep (c # cs) cur =
     (if c = CHR ''/'' then rev cur # split_sep cs [] else split_sep cs (c # cur))"

fun clean_elems :: "bool \<Rightarrow> string list \<Rightarrow> string list \<Rightarrow> string list" where
  "clean_elems rooted [] st = rev st"
| "clean_elems rooted (e # es) st =
     (if e = [] \<or> e = ''.'' then clean_elems rooted es st
      else if e = ''..'' then
        (case st of
           [] \<Rightarrow> clean_elems rooted es (if rooted then [] else [e])
         | t # ts \<Rightarrow> if t = ''..'' then clean_elems rooted es (e # st)
                     else clean_elems rooted es ts)
      else clean_elems rooted es (e # st))"

fun join_sep :: "string list \<Rightarrow> string" where
  "join_sep [] = []"
| "join_sep [e] = e"
| "join_sep (e # es) = e @ ''/'' @ join_sep es"

definition Clean :: "path \<Rightarrow> path" where
  "Clean p =
     (if p = [] then ''.''
      else let rooted = (hd p = CHR ''/'');
               out = (if rooted then ''/'' else []) @ join_sep (clean_elems rooted (split_sep p []) [])
           in if out = [] then ''.'' else out)"

definition Join :: "path \<Rightarrow> path \<Rightarrow> path" where
  "Join a b =
     (if a \<noteq> [] then Clean (a @ ''/'' @ b)
      else if b \<noteq> [] then Clean b
      else [])"

text \<open>The verb \<open>%d\<close> of \<open>fmt.Sprintf\<close>: decimal digits, a minus sign for negatives.\<close>

definition digit :: "nat \<Rightarrow> char" where
  "digit n = ''0123456789'' ! n"

fun dec_nat :: "nat \<Rightarrow> string" where
  "dec_nat n =
     (if n < 10 then [digit n]
      else dec_nat (n div 10) @ [digit (n mod 10)])"

definition fmt_d :: "int \<Rightarrow> string" where
  "fmt_d i = (if i < 0 then CHR ''-'' # dec_nat (nat (- i)) else dec_nat (nat i))"

text \<open>The currency marker of the file name: U+5186 in UTF-8, three bytes.\<close>

definition yen :: string where
  "yen = [CHR 0xE5, CHR 0x86, CHR 0x86]"

text \<open>\<open>strings.Contains\<close>.\<close>

fun Contains :: "string \<Rightarrow> string \<Rightarrow> bool" where
  "Contains [] sub = (sub = [])"
| "Contains (c # cs) sub = (take (length sub) (c # cs) = sub \<or> Contains cs sub)"

subsection \<open>The record extracted from a document\<close>

text \<open>
  \<open>type ReceiptData struct { Date, Vendor, Category string; Amount int }\<close>. The amount
  is a 64-bit Go \<open>int\<close>; the program only decodes and prints it, so it is an \<open>int\<close>
  here and the decoder checks the range.
\<close>

record ReceiptData =
  Date :: string
  Vendor :: string
  Category :: string
  Amount :: int

definition zero_ReceiptData :: ReceiptData where
  "zero_ReceiptData = \<lparr>Date = [], Vendor = [], Category = [], Amount = 0\<rparr>"

subsection \<open>The process state: files, operating-system failures, log\<close>

text \<open>
  The operating system is the environment. A file system is a map from paths to byte
  contents. Every system call of the program may fail for reasons the program cannot
  see (permissions, a full disk, a missing directory, another device): \<open>fault\<close> says,
  for the \<open>n\<close>-th call and the operation attempted, whether it fails and with which
  errno text; \<open>cut\<close> says how many bytes a failing \<open>io.Copy\<close> has written. Directories
  are not tracked: a call that the real system refuses for the lack of one is a fault.
  \<open>logs\<close> holds the lines written by \<open>log.Printf\<close>, one constructor for each call site;
  \<open>destDir\<close> is the value of the flag \<open>-dest\<close>, and \<open>today\<close> is what
  \<open>time.Now().Format("2006-01-02")\<close> returns.
\<close>

datatype os_op =
    OpRename path path
  | OpOpen path
  | OpCreate path
  | OpCopy path path
  | OpRemove path
  | OpMkdirAll path

datatype log_entry =
    LogSaved path
  | LogFailedSave string
  | LogArchived path
  | LogFailedMove string
  | LogFailedOriginalsDir string
  | LogSkipArchive path
  | LogDetected path
  | LogAborted path string
  | LogProcessing path
  | LogAnalysisFailed path string
  | LogNoData path

record world =
  files :: "path \<rightharpoonup> bytes"
  fault :: "nat \<Rightarrow> os_op \<Rightarrow> string option"
  cut :: "nat \<Rightarrow> nat"
  calls :: nat
  logs :: "log_entry list"
  destDir :: path
  today :: string

text \<open>The texts of \<open>*os.PathError\<close> and \<open>*os.LinkError\<close>.\<close>

definition PathError :: "string \<Rightarrow> path \<Rightarrow> string \<Rightarrow> string" where
  "PathError opn p msg = opn @ '' '' @ p @ '': '' @ msg"

definition LinkError :: "string \<Rightarrow> path \<Rightarrow> path \<Rightarrow> string \<Rightarrow> string" where
  "LinkError opn old new msg = opn @ '' '' @ old @ '' '' @ new @ '': '' @ msg"

definition ENOENT :: string where
  "ENOENT = ''no such file or directory''"

definition EXDEV :: string where
  "EXDEV = ''invalid cross-device link''"

definition called :: "world \<Rightarrow> world" where
  "called w = w\<lparr>calls := Suc (calls w)\<rparr>"

definition logf :: "log_entry \<Rightarrow> world \<Rightarrow> world" where
  "logf e w = w\<lparr>logs := logs w @ [e]\<rparr>"

definition os_Rename :: "path \<Rightarrow> path \<Rightarrow> world \<Rightarrow> string option \<times> world" where
  "os_Rename src dst w =
     (case fault w (calls w) (OpRename src dst) of
        Some msg \<Rightarrow> (Some (LinkError ''rename'' src dst msg), called w)
      | None \<Rightarrow>
          (case files w src of
             None \<Rightarrow> (Some (LinkError ''rename'' src dst ENOENT), called w)
           | Some c \<Rightarrow> (None, called (w\<lparr>files := ((files w)(src := None))(dst \<mapsto> c)\<rparr>))))"

definition os_Open :: "path \<Rightarrow> world \<Rightarrow> string option \<times> world" where
  "os_Open p w =
     (case fault w (calls w) (OpOpen p) of
        Some msg \<Rightarrow> (Some (PathError ''open'' p msg), called w)
      | None \<Rightarrow>
          (case files w p of
             None \<Rightarrow> (Some (PathError ''open'' p ENOENT), called w)
           | Some c \<Rightarrow> (None, called w)))"

definition os_Create :: "path \<Rightarrow> world \<Rightarrow> string option \<times> world" where
  "os_Create p w =
     (case fault w (calls w) (OpCreate p) of
        Some msg \<Rightarrow> (Some (PathError ''open'' p msg), called w)
      | None \<Rightarrow> (None, called (w\<lparr>files := (files w)(p \<mapsto> [])\<rparr>)))"

text \<open>
  \<open>io.Copy(destFile, sourceFile)\<close> on the two open files: what the source holds now is
  written to the destination; a failure leaves the bytes written so far.
\<close>

definition io_Copy :: "path \<Rightarrow> path \<Rightarrow> world \<Rightarrow> string option \<times> world" where
  "io_Copy dst src w =
     (let c = (case files w src of None \<Rightarrow> [] | Some c \<Rightarrow> c) in
      case fault w (calls w) (OpCopy src dst) of
        Some msg \<Rightarrow>
          (Some (PathError ''write'' dst msg),
           called (w\<lparr>files := (files w)(dst \<mapsto> take (cut w (calls w)) c)\<rparr>))
      | None \<Rightarrow> (None, called (w\<lparr>files := (files w)(dst \<mapsto> c)\<rparr>)))"

definition os_Remove :: "path \<Rightarrow> world \<Rightarrow> string option \<times> world" where
  "os_Remove p w =
     (case fault w (calls w) (OpRemove p) of
        Some msg \<Rightarrow> (Some (PathError ''remove'' p msg), called w)
      | None \<Rightarrow>
          (case files w p of
             None \<Rightarrow> (Some (PathError ''remove'' p ENOENT), called w)
           | Some c \<Rightarrow> (None, called (w\<lparr>files := (files w)(p := None)\<rparr>))))"

definition os_MkdirAll :: "path \<Rightarrow> world \<Rightarrow> string option \<times> world" where
  "os_MkdirAll p w =
     (case fault w (calls w) (OpMkdirAll p) of
        Some msg \<Rightarrow> (Some (PathError ''mkdir'' p msg), called w)
      | None \<Rightarrow> (None, called w))"

subsection \<open>robustCopy and robustMove\<close>

definition robustCopy :: "path \<Rightarrow> path \<Rightarrow> world \<Rightarrow> string option \<times> world" where
  "robustCopy src dst w =
     (case os_Open src w of
        (Some e, w1) \<Rightarrow> (Some e, w1)
      | (None, w1) \<Rightarrow>
          (case os_Create dst w1 of
             (Some e, w2) \<Rightarrow> (Some e, w2)
           | (None, w2) \<Rightarrow> io_Copy dst src w2))"

definition robustMove :: "path \<Rightarrow> path \<Rightarrow> world \<Rightarrow> string option \<times> world" where
  "robustMove src dst w =
     (case os_Rename src dst w of
        (None, w1) \<Rightarrow> (None, w1)
      | (Some e, w1) \<Rightarrow>
          if \<not> Contains e ''cross-device link'' then (Some e, w1)
          else
            (case robustCopy src dst w1 of
               (Some e2, w2) \<Rightarrow> (Some e2, w2)
             | (None, w2) \<Rightarrow> os_Remove src w2))"

subsection \<open>The File Committer\<close>

definition normVendor :: "string \<Rightarrow> string" where
  "normVendor v = ReplaceAll (ReplaceAll v '' '' []) ''/'' ''-''"

definition dateOf :: "world \<Rightarrow> ReceiptData \<Rightarrow> string" where
  "dateOf w d = (if Date d = [] then today w else Date d)"

definition categoryOf :: "ReceiptData \<Rightarrow> string" where
  "categoryOf d = (if Category d = [] then ''Unsorted'' else Category d)"

definition processedFileName :: "world \<Rightarrow> path \<Rightarrow> ReceiptData \<Rightarrow> string" where
  "processedFileName w srcPath d =
     dateOf w d @ ''_'' @ normVendor (Vendor d) @ ''_'' @ fmt_d (Amount d) @ yen @ Ext srcPath"

definition processedDir :: "world \<Rightarrow> ReceiptData \<Rightarrow> path" where
  "processedDir w d = Join (destDir w) (categoryOf d)"

definition processedPath :: "world \<Rightarrow> path \<Rightarrow> ReceiptData \<Rightarrow> path" where
  "processedPath w srcPath d = Join (processedDir w d) (processedFileName w srcPath d)"

definition saveProcessedFile :: "path \<Rightarrow> ReceiptData \<Rightarrow> world \<Rightarrow> string option \<times> world" where
  "saveProcessedFile srcPath d w =
     (case os_MkdirAll (processedDir w d) w of
        (Some e, w1) \<Rightarrow>
          (Some (''failed to create directory '' @ processedDir w d @ '': '' @ e), w1)
      | (None, w1) \<Rightarrow>
          (case robustCopy srcPath (processedPath w srcPath d) w1 of
             (Some e, w2) \<Rightarrow> (Some (''failed to copy to processed folder: '' @ e), w2)
           | (None, w2) \<Rightarrow> (None, logf (LogSaved (processedPath w srcPath d)) w2)))"

definition originalsDir :: "world \<Rightarrow> path" where
  "originalsDir w = Join (destDir w) ''originals''"

definition originalsPath :: "world \<Rightarrow> path \<Rightarrow> path" where
  "originalsPath w srcPath = Join (originalsDir w) (Base srcPath)"

definition archiveOriginalFile :: "path \<Rightarrow> world \<Rightarrow> world" where
  "archiveOriginalFile srcPath w =
     (case os_MkdirAll (originalsDir w) w of
        (Some e, w1) \<Rightarrow> logf (LogFailedOriginalsDir e) w1
      | (None, w1) \<Rightarrow>
          (case robustMove srcPath (originalsPath w srcPath) w1 of
             (Some e, w2) \<Rightarrow> logf (LogFailedMove e) w2
           | (None, w2) \<Rightarrow> logf (LogArchived (originalsPath w srcPath)) w2))"

text \<open>The loop of \<open>saveAndArchive\<close>: the success counter and the state after each record.\<close>

fun saveAll :: "path \<Rightarrow> ReceiptData list \<Rightarrow> nat \<Rightarrow> world \<Rightarrow> nat \<times> world" where
  "saveAll srcPath [] successCount w = (successCount, w)"
| "saveAll srcPath (d # ds) successCount w =
     (case saveProcessedFile srcPath d w of
        (Some e, w1) \<Rightarrow> saveAll srcPath ds successCount (logf (LogFailedSave e) w1)
      | (None, w1) \<Rightarrow> saveAll srcPath ds (Suc successCount) w1)"

definition saveAndArchive :: "path \<Rightarrow> ReceiptData list \<Rightarrow> world \<Rightarrow> world" where
  "saveAndArchive srcPath dataList w =
     (case saveAll srcPath dataList 0 w of
        (successCount, w1) \<Rightarrow>
          if successCount > 0 then archiveOriginalFile srcPath w1
          else logf (LogSkipArchive srcPath) w1)"

subsection \<open>The JSON decoder (Go package encoding/json)\<close>

text \<open>
  \<open>json.Unmarshal\<close> first checks that the whole input is one JSON value between
  optional white space, then stores the value into the target. The grammar is that of
  the scanner of the package: a byte-wise state machine for the tokens, and a stack of
  open arrays and objects (at most 10000 deep) for the values.
\<close>

datatype token =
    TLBrace | TRBrace | TLBrack | TRBrack | TColon | TComma
  | TStr string | TNum string | TTrue | TFalse | TNull

datatype numstate = NNeg | NZero | NInt | NDot | NFrac | NE | NESign | NExp

datatype lstate =
    LStart
  | LStr string
  | LEsc string
  | LHex nat string
  | LLit string token
  | LNum numstate string

definition is_digit :: "char \<Rightarrow> bool" where
  "is_digit c = (c \<in> set ''0123456789'')"

definition is_hex :: "char \<Rightarrow> bool" where
  "is_hex c = (c \<in> set ''0123456789abcdefABCDEF'')"

definition is_space :: "char \<Rightarrow> bool" where
  "is_space c = (c = CHR '' '' \<or> c = CHR 0x09 \<or> c = CHR 0x0D \<or> c = CHR 0x0A)"

definition hex_val :: "char \<Rightarrow> nat" where
  "hex_val c =
     (let n = (of_char c :: nat) in
      if 48 \<le> n \<and> n \<le> 57 then n - 48
      else if 97 \<le> n \<and> n \<le> 102 then n - 87
      else n - 55)"

fun hex4 :: "string \<Rightarrow> nat" where
  "hex4 s = foldl (\<lambda>a c. 16 * a + hex_val c) 0 (take 4 s)"

text \<open>\<open>utf8.EncodeRune\<close>; a surrogate is encoded as U+FFFD.\<close>

definition replacement :: string where
  "replacement = [CHR 0xEF, CHR 0xBF, CHR 0xBD]"

definition utf8_encode :: "nat \<Rightarrow> string" where
  "utf8_encode r =
     (if r < 0x80 then [char_of r]
      else if r < 0x800 then [char_of (0xC0 + r div 64), char_of (0x80 + r mod 64)]
      else if 0xD800 \<le> r \<and> r < 0xE000 then replacement
      else if r < 0x10000 then
        [char_of (0xE0 + r div 4096), char_of (0x80 + (r div 64) mod 64), char_of (0x80 + r mod 64)]
      else
        [char_of (0xF0 + r div 262144), char_of (0x80 + (r div 4096) mod 64),
         char_of (0x80 + (r div 64) mod 64), char_of (0x80 + r mod 64)])"

text \<open>
  The length of the well-formed UTF-8 sequence that starts with the byte \<open>c\<close> and goes
  on in \<open>cs\<close>, or 0 when there is none (\<open>utf8.DecodeRune\<close> then yields U+FFFD, width 1).
\<close>

definition in_range :: "nat \<Rightarrow> nat \<Rightarrow> char \<Rightarrow> bool" where
  "in_range lo hi c = (lo \<le> (of_char c :: nat) \<and> (of_char c :: nat) \<le> hi)"

definition utf8_len :: "char \<Rightarrow> string \<Rightarrow> nat" where
  "utf8_len c cs =
     (let b = (of_char c :: nat);
          lo1 = (if b = 0xE0 then 0xA0 else if b = 0xF0 then 0x90 else 0x80);
          hi1 = (if b = 0xED then 0x9F else if b = 0xF4 then 0x8F else 0xBF);
          n = (if 0xC2 \<le> b \<and> b \<le> 0xDF then 2
               else if 0xE0 \<le> b \<and> b \<le> 0xEF then 3
               else if 0xF0 \<le> b \<and> b \<le> 0xF4 then 4 else 0)
      in if n = 0 \<or> length cs < n - 1 then 0
         else if in_range lo1 hi1 (hd cs) \<and> list_all (in_range 0x80 0xBF) (take (n - 2) (tl cs)) then n
         else 0)"

text \<open>
  One step of \<open>unquote\<close>: the bytes written for the character or escape that starts
  with \<open>c\<close>, and how many bytes of \<open>cs\<close> it takes. The escapes have been checked by the
  scanner. A \<open>\u\<close> escape of a high surrogate joins a following \<open>\u\<close> escape of a low
  surrogate; a surrogate alone becomes U+FFFD.
\<close>

definition unescape :: "char \<Rightarrow> char" where
  "unescape e =
     (if e = CHR ''b'' then CHR 0x08
      else if e = CHR ''f'' then CHR 0x0C
      else if e = CHR ''n'' then CHR 0x0A
      else if e = CHR ''r'' then CHR 0x0D
      else if e = CHR ''t'' then CHR 0x09
      else e)"

definition decode1 :: "char \<Rightarrow> string \<Rightarrow> string \<times> nat" where
  "decode1 c cs =
     (if c = CHR 0x5C then
        (case cs of
           [] \<Rightarrow> ([], 0)
         | e # r \<Rightarrow>
             if e = CHR ''u'' then
               (let r1 = hex4 r in
                if 0xD800 \<le> r1 \<and> r1 < 0xE000 then
                  (let r2 = hex4 (drop 6 r) in
                   if length r \<ge> 10 \<and> take 2 (drop 4 r) = [CHR 0x5C, CHR ''u'']
                      \<and> r1 < 0xDC00 \<and> 0xDC00 \<le> r2 \<and> r2 < 0xE000
                   then (utf8_encode ((r1 - 0xD800) * 1024 + (r2 - 0xDC00) + 0x10000), 11)
                   else (replacement, 5))
                else (utf8_encode r1, 5))
             else ([unescape e], 1))
      else if (of_char c :: nat) < 0x80 then ([c], 0)
      else
        (let n = utf8_len c cs in
         if n = 0 then (replacement, 0) else (c # take (n - 1) cs, n - 1)))"

function unquote :: "string \<Rightarrow> string" where
  "unquote [] = []"
| "unquote (c # cs) = fst (decode1 c cs) @ unquote (drop (snd (decode1 c cs)) cs)"
  by pat_completeness auto
termination
  by (relation "measure length") auto

definition lex_start :: "char \<Rightarrow> (token list \<times> lstate) option" where
  "lex_start c =
     (if is_space c then Some ([], LStart)
      else if c = CHR ''{'' then Some ([TLBrace], LStart)
      else if c = CHR ''}'' then Some ([TRBrace], LStart)
      else if c = CHR ''['' then Some ([TLBrack], LStart)
      else if c = CHR '']'' then Some ([TRBrack], LStart)
      else if c = CHR '':'' then Some ([TColon], LStart)
      else if c = CHR '','' then Some ([TComma], LStart)
      else if c = CHR 0x22 then Some ([], LStr [])
      else if c = CHR ''-'' then Some ([], LNum NNeg [c])
      else if c = CHR ''0'' then Some ([], LNum NZero [c])
      else if is_digit c then Some ([], LNum NInt [c])
      else if c = CHR ''t'' then Some ([], LLit ''rue'' TTrue)
      else if c = CHR ''f'' then Some ([], LLit ''alse'' TFalse)
      else if c = CHR ''n'' then Some ([], LLit ''ull'' TNull)
      else None)"

definition is_exp :: "char \<Rightarrow> bool" where
  "is_exp c = (c = CHR ''e'' \<or> c = CHR ''E'')"

text \<open>
  A number: the next state when the byte continues it, \<open>None\<close> when it does not.
  A number may end only in the states \<open>NZero\<close>, \<open>NInt\<close>, \<open>NFrac\<close> and \<open>NExp\<close>.
\<close>

fun num_next :: "numstate \<Rightarrow> char \<Rightarrow> numstate option" where
  "num_next NNeg c = (if c = CHR ''0'' then Some NZero else if is_digit c then Some NInt else None)"
| "num_next NZero c = (if c = CHR ''.'' then Some NDot else if is_exp c then Some NE else None)"
| "num_next NInt c =
     (if is_digit c then Some NInt else if c = CHR ''.'' then Some NDot
      else if is_exp c then Some NE else None)"
| "num_next NDot c = (if is_digit c then Some NFrac else None)"
| "num_next NFrac c = (if is_digit c then Some NFrac else if is_exp c then Some NE else None)"
| "num_next NE c =
     (if c = CHR ''+'' \<or> c = CHR ''-'' then Some NESign else if is_digit c then Some NExp else None)"
| "num_next NESign c = (if is_digit c then Some NExp else None)"
| "num_next NExp c = (if is_digit c then Some NExp else None)"

definition num_final :: "numstate \<Rightarrow> bool" where
  "num_final ns = (ns = NZero \<or> ns = NInt \<or> ns = NFrac \<or> ns = NExp)"

fun lex_step :: "lstate \<Rightarrow> char \<Rightarrow> (token list \<times> lstate) option" where
  "lex_step LStart c = lex_start c"
| "lex_step (LStr acc) c =
     (if c = CHR 0x22 then Some ([TStr (unquote (rev acc))], LStart)
      else if c = CHR 0x5C then Some ([], LEsc (c # acc))
      else if (of_char c :: nat) < 0x20 then None
      else Some ([], LStr (c # acc)))"
| "lex_step (LEsc acc) c =
     (if c = CHR ''u'' then Some ([], LHex 4 (c # acc))
      else if c \<in> set [CHR 0x22, CHR 0x5C, CHR ''/'', CHR ''b'', CHR ''f'', CHR ''n'', CHR ''r'', CHR ''t'']
      then Some ([], LStr (c # acc))
      else None)"
| "lex_step (LHex n acc) c =
     (if is_hex c then Some ([], if n \<le> 1 then LStr (c # acc) else LHex (n - 1) (c # acc))
      else None)"
| "lex_step (LLit [] t) c = None"
| "lex_step (LLit (x # xs) t) c =
     (if c = x then (if xs = [] then Some ([t], LStart) else Some ([], LLit xs t)) else None)"
| "lex_step (LNum ns acc) c =
     (case num_next ns c of
        Some ns' \<Rightarrow> Some ([], LNum ns' (c # acc))
      | None \<Rightarrow>
          if num_final ns then
            (case lex_start c of
               None \<Rightarrow> None
             | Some (ts, st) \<Rightarrow> Some (TNum (rev acc) # ts, st))
          else None)"

fun lex_end :: "lstate \<Rightarrow> token list option" where
  "lex_end LStart = Some []"
| "lex_end (LNum ns acc) = (if num_final ns then Some [TNum (rev acc)] else None)"
| "lex_end st = None"

fun lexer :: "lstate \<Rightarrow> string \<Rightarrow> token list option" where
  "lexer st [] = lex_end st"
| "lexer st (c # cs) =
     (case lex_step st c of
        None \<Rightarrow> None
      | Some (ts, st') \<Rightarrow> (case lexer st' cs of None \<Rightarrow> None | Some r \<Rightarrow> Some (ts @ r)))"

datatype json =
    JNull
  | JBool bool
  | JNumber string
  | JString string
  | JArray "json list"
  | JObject "(string \<times> json) list"

datatype frame =
    FArr "json list"
  | FObj "(string \<times> json) list"
  | FMember "(string \<times> json) list" string

datatype pstate =
    ExpValue
  | ExpValueOrEnd
  | ExpCommaOrEndArr
  | ExpKeyOrEnd
  | ExpKey
  | ExpColon string
  | ExpCommaOrEndObj
  | Done json

definition maxNestingDepth :: nat where
  "maxNestingDepth = 10000"

text \<open>A value is complete: it is the whole text, an array element or a member value.\<close>

fun put_value :: "json \<Rightarrow> frame list \<Rightarrow> (pstate \<times> frame list) option" where
  "put_value v [] = Some (Done v, [])"
| "put_value v (FArr es # stk) = Some (ExpCommaOrEndArr, FArr (v # es) # stk)"
| "put_value v (FMember ms k # stk) = Some (ExpCommaOrEndObj, FObj ((k, v) # ms) # stk)"
| "put_value v (FObj ms # stk) = None"

definition begin_value :: "token \<Rightarrow> frame list \<Rightarrow> (pstate \<times> frame list) option" where
  "begin_value t stk =
     (case t of
        TLBrace \<Rightarrow> if length stk \<ge> maxNestingDepth then None else Some (ExpKeyOrEnd, FObj [] # stk)
      | TLBrack \<Rightarrow> if length stk \<ge> maxNestingDepth then None else Some (ExpValueOrEnd, FArr [] # stk)
      | TStr s \<Rightarrow> put_value (JString s) stk
      | TNum s \<Rightarrow> put_value (JNumber s) stk
      | TTrue \<Rightarrow> put_value (JBool True) stk
      | TFalse \<Rightarrow> put_value (JBool False) stk
      | TNull \<Rightarrow> put_value JNull stk
      | _ \<Rightarrow> None)"

definition end_array :: "frame list \<Rightarrow> (pstate \<times> frame list) option" where
  "end_array stk = (case stk of FArr es # r \<Rightarrow> put_value (JArray (rev es)) r | _ \<Rightarrow> None)"

definition end_object :: "frame list \<Rightarrow> (pstate \<times> frame list) option" where
  "end_object stk = (case stk of FObj ms # r \<Rightarrow> put_value (JObject (rev ms)) r | _ \<Rightarrow> None)"

definition begin_key :: "token \<Rightarrow> frame list \<Rightarrow> (pstate \<times> frame list) option" where
  "begin_key t stk = (case t of TStr k \<Rightarrow> Some (ExpColon k, stk) | _ \<Rightarrow> None)"

fun parse_step :: "pstate \<Rightarrow> frame list \<Rightarrow> token \<Rightarrow> (pstate \<times> frame list) option" where
  "parse_step ExpValue stk t = begin_value t stk"
| "parse_step ExpValueOrEnd stk t = (if t = TRBrack then end_array stk else begin_value t stk)"
| "parse_step ExpCommaOrEndArr stk t =
     (if t = TComma then Some (ExpValue, stk) else if t = TRBrack then end_array stk else None)"
| "parse_step ExpKeyOrEnd stk t = (if t = TRBrace then end_object stk else begin_key t stk)"
| "parse_step ExpKey stk t = begin_key t stk"
| "parse_step (ExpColon k) stk t =
     (if t = TColon then
        (case stk of FObj ms # r \<Rightarrow> Some (ExpValue, FMember ms k # r) | _ \<Rightarrow> None)
      else None)"
| "parse_step ExpCommaOrEndObj stk t =
     (if t = TComma then Some (ExpKey, stk) else if t = TRBrace then end_object stk else None)"
| "parse_step (Done v) stk t = None"

fun parser :: "pstate \<Rightarrow> frame list \<Rightarrow> token list \<Rightarrow> json option" where
  "parser st stk [] = (case st of Done v \<Rightarrow> Some v | _ \<Rightarrow> None)"
| "parser st stk (t # ts) =
     (case parse_step st stk t of None \<Rightarrow> None | Some (st', stk') \<Rightarrow> parser st' stk' ts)"

definition parse_json :: "string \<Rightarrow> json option" where
  "parse_json text = (case lexer LStart text of None \<Rightarrow> None | Some ts \<Rightarrow> parser ExpValue [] ts)"

text \<open>
  Storing a value. A JSON \<open>null\<close> leaves the target as it is. A string field takes a JSON
  string; the \<open>int\<close> field takes a number that \<open>strconv.ParseInt(s, 10, 64)\<close> accepts.
  Anything else is an \<open>UnmarshalTypeError\<close>: it is remembered (the flag), the decoding
  goes on, and \<open>Unmarshal\<close> returns it at the end. Object keys match the field tags
  \<open>date\<close>, \<open>vendor\<close>, \<open>category\<close>, \<open>total_amount\<close> without regard to case; other keys are
  skipped; a later duplicate overwrites.
\<close>

datatype json_error = SyntaxError | UnmarshalTypeError

fun dec_val :: "string \<Rightarrow> int" where
  "dec_val s = foldl (\<lambda>a c. 10 * a + ((of_char c :: int) - 48)) 0 s"

definition ParseInt64 :: "string \<Rightarrow> int option" where
  "ParseInt64 s =
     (let neg = (s \<noteq> [] \<and> hd s = CHR ''-'');
          ds = (if neg then tl s else s);
          v = (if neg then - dec_val ds else dec_val ds)
      in if ds \<noteq> [] \<and> list_all is_digit ds \<and> - (2 ^ 63) \<le> v \<and> v < 2 ^ 63 then Some v else None)"

definition storeString :: "json \<Rightarrow> string \<Rightarrow> string \<times> bool" where
  "storeString v old =
     (case v of JString s \<Rightarrow> (s, False) | JNull \<Rightarrow> (old, False) | _ \<Rightarrow> (old, True))"

definition storeInt :: "json \<Rightarrow> int \<Rightarrow> int \<times> bool" where
  "storeInt v old =
     (case v of
        JNumber s \<Rightarrow> (case ParseInt64 s of Some n \<Rightarrow> (n, False) | None \<Rightarrow> (old, True))
      | JNull \<Rightarrow> (old, False)
      | _ \<Rightarrow> (old, True))"

definition storeField :: "ReceiptData \<times> bool \<Rightarrow> string \<times> json \<Rightarrow> ReceiptData \<times> bool" where
  "storeField acc m =
     (case acc of (r, bad) \<Rightarrow>
       (case m of (k, v) \<Rightarrow>
          if ToLower k = ''date'' then
            (case storeString v (Date r) of (s, b) \<Rightarrow> (r\<lparr>Date := s\<rparr>, bad \<or> b))
          else if ToLower k = ''vendor'' then
            (case storeString v (Vendor r) of (s, b) \<Rightarrow> (r\<lparr>Vendor := s\<rparr>, bad \<or> b))
          else if ToLower k = ''category'' then
            (case storeString v (Category r) of (s, b) \<Rightarrow> (r\<lparr>Category := s\<rparr>, bad \<or> b))
          else if ToLower k = ''total_amount'' then
            (case storeInt v (Amount r) of (n, b) \<Rightarrow> (r\<lparr>Amount := n\<rparr>, bad \<or> b))
          else (r, bad)))"

definition storeReceipt :: "json \<Rightarrow> ReceiptData \<Rightarrow> ReceiptData \<times> bool" where
  "storeReceipt v r =
     (case v of
        JNull \<Rightarrow> (r, False)
      | JObject ms \<Rightarrow> foldl storeField (r, False) ms
      | _ \<Rightarrow> (r, True))"

text \<open>\<open>json.Unmarshal([]byte(jsonText), &single)\<close> with \<open>var single ReceiptData\<close>.\<close>

definition Unmarshal_ReceiptData :: "string \<Rightarrow> json_error + ReceiptData" where
  "Unmarshal_ReceiptData text =
     (case parse_json text of
        None \<Rightarrow> Inl SyntaxError
      | Some v \<Rightarrow>
          (case storeReceipt v zero_ReceiptData of
             (r, True) \<Rightarrow> Inl UnmarshalTypeError
           | (r, False) \<Rightarrow> Inr r))"

text \<open>\<open>json.Unmarshal([]byte(jsonText), &list)\<close> with \<open>var list []ReceiptData\<close>.\<close>

definition Unmarshal_ReceiptData_list :: "string \<Rightarrow> json_error + ReceiptData list" where
  "Unmarshal_ReceiptData_list text =
     (case parse_json text of
        None \<Rightarrow> Inl SyntaxError
      | Some JNull \<Rightarrow> Inr []
      | Some (JArray vs) \<Rightarrow>
          (let rs = map (\<lambda>v. storeReceipt v zero_ReceiptData) vs in
           if list_ex snd rs then Inl UnmarshalTypeError else Inr (map fst rs))
      | Some _ \<Rightarrow> Inl UnmarshalTypeError)"

subsection \<open>The Response Parser\<close>

datatype parse_error = ParseError

definition parseGeminiResponse :: "string \<Rightarrow> parse_error + ReceiptData list" where
  "parseGeminiResponse jsonText =
     (case Unmarshal_ReceiptData jsonText of
        Inr single \<Rightarrow> Inr [single]
      | Inl e1 \<Rightarrow>
          (case Unmarshal_ReceiptData_list jsonText of
             Inr list \<Rightarrow> Inr list
           | Inl e2 \<Rightarrow> Inl ParseError))"

subsection \<open>The Stability Detector\<close>

text \<open>
  Time is the environment of \<open>waitForStableFile\<close>. Durations are in nanoseconds, as
  \<open>time.Duration\<close>. The loop reads the clock once per iteration and then sleeps:
  \<open>time.Sleep(1 * time.Second)\<close> lasts one second and \<open>jitter k\<close> more (whatever else
  the \<open>k\<close>-th iteration takes), so iteration \<open>k\<close> starts at \<open>timeAt k\<close> after
  \<open>startTime\<close>. \<open>stat k\<close> is what \<open>os.Stat(path)\<close> returns in iteration \<open>k\<close>: a size, the
  error that \<open>os.IsNotExist\<close> recognises, or another error.
\<close>

datatype stat_result = StatSize nat | StatNotExist | StatError string

record wait_env =
  stat :: "nat \<Rightarrow> stat_result"
  jitter :: "nat \<Rightarrow> nat"

definition second :: nat where
  "second = 1000000000"

definition stabilityThreshold :: nat where
  "stabilityThreshold = 10 * second"

definition maxWaitTime :: nat where
  "maxWaitTime = 5 * (60 * second)"

fun timeAt :: "wait_env \<Rightarrow> nat \<Rightarrow> nat" where
  "timeAt env 0 = 0"
| "timeAt env (Suc k) = timeAt env k + second + jitter env k"

text \<open>
  The result: \<open>nil\<close>, or one of the errors \<open>timeout waiting for file to stabilize\<close>,
  \<open>file disappeared\<close>, \<open>error stating file: ...\<close>.
\<close>

datatype wait_result = Stable | Timeout | Disappeared | StatFailed string

function waitLoop :: "wait_env \<Rightarrow> nat \<Rightarrow> int \<Rightarrow> nat \<Rightarrow> wait_result" where
  "waitLoop env k lastSize stableSince =
     (if timeAt env k > maxWaitTime then Timeout
      else
        (case stat env k of
           StatNotExist \<Rightarrow> Disappeared
         | StatError e \<Rightarrow> StatFailed e
         | StatSize currentSize \<Rightarrow>
             if int currentSize \<noteq> lastSize
             then waitLoop env (Suc k) (int currentSize) (timeAt env k)
             else if timeAt env k - stableSince \<ge> stabilityThreshold \<and> currentSize > 0
             then Stable
             else waitLoop env (Suc k) lastSize stableSince))"
  by pat_completeness auto
termination
  by (relation "measure (\<lambda>(env, k, lastSize, stableSince). Suc maxWaitTime - timeAt env k)")
     (auto simp: second_def)

declare waitLoop.simps [simp del]

definition waitForStableFile :: "wait_env \<Rightarrow> wait_result" where
  "waitForStableFile env = waitLoop env 0 (- 1) 0"

subsection \<open>The Analysis Client\<close>

text \<open>
  The remote service (package genai) is the environment: what it answers to the
  upload, to the \<open>k\<close>-th \<open>GetFile\<close>, to \<open>GenerateContent\<close> and to \<open>DeleteFile\<close>. The state
  of the service that the program can change is the set of stored assets; \<open>api\<close>
  records the calls made, in order.
\<close>

datatype FileState =
    FileStateUnspecified
  | FileStateProcessing
  | FileStateActive
  | FileStateFailed

record genai_File =
  File_Name :: string
  File_URI :: string
  File_State :: FileState

datatype Part = Text string | Blob bytes

record Candidate =
  Parts :: "Part list"

record GenerateContentResponse =
  Candidates :: "Candidate list"

datatype api_call =
    CallUploadFile
  | CallGetFile string
  | CallGenerateContent string
  | CallDeleteFile string

record cloud =
  uploadReply :: "string + genai_File"
  getReply :: "nat \<Rightarrow> string + genai_File"
  generateReply :: "string + GenerateContentResponse"
  deleteReply :: "string option"
  assets :: "string set"
  api :: "api_call list"

definition UploadFile :: "cloud \<Rightarrow> (string + genai_File) \<times> cloud" where
  "UploadFile c =
     (case uploadReply c of
        Inl e \<Rightarrow> (Inl e, c\<lparr>api := api c @ [CallUploadFile]\<rparr>)
      | Inr f \<Rightarrow> (Inr f, c\<lparr>assets := insert (File_Name f) (assets c), api := api c @ [CallUploadFile]\<rparr>))"

definition GetFile :: "string \<Rightarrow> nat \<Rightarrow> cloud \<Rightarrow> (string + genai_File) \<times> cloud" where
  "GetFile name k c = (getReply c k, c\<lparr>api := api c @ [CallGetFile name]\<rparr>)"

definition GenerateContent :: "string \<Rightarrow> cloud \<Rightarrow> (string + GenerateContentResponse) \<times> cloud" where
  "GenerateContent uri c = (generateReply c, c\<lparr>api := api c @ [CallGenerateContent uri]\<rparr>)"

text \<open>The program drops the error of \<open>DeleteFile\<close>; a refused deletion leaves the asset.\<close>

definition DeleteFile :: "string \<Rightarrow> cloud \<Rightarrow> cloud" where
  "DeleteFile name c =
     (case deleteReply c of
        Some e \<Rightarrow> c\<lparr>api := api c @ [CallDeleteFile name]\<rparr>
      | None \<Rightarrow> c\<lparr>assets := assets c - {name}, api := api c @ [CallDeleteFile name]\<rparr>)"

text \<open>
  The errors of \<open>analyzeReceipt\<close>, by their \<open>fmt.Errorf\<close> texts: \<open>error opening file\<close>,
  \<open>upload failed\<close>, \<open>check failed state\<close>, \<open>file processing failed state\<close>,
  \<open>gemini generate error\<close>, \<open>empty response from model\<close>, and the error of
  \<open>parseGeminiResponse\<close>.
\<close>

datatype analysis_error =
    ErrOpen string
  | ErrUpload string
  | ErrCheck string
  | ErrProcessingFailed FileState
  | ErrGenerate string
  | ErrEmptyResponse
  | ErrParse

text \<open>
  The polling loop has no bound of its own: it runs as long as the service reports
  the processing state. \<open>fuel\<close> bounds the number of polls; \<open>None\<close> is a loop that has
  not returned within them.
\<close>

fun pollLoop :: "nat \<Rightarrow> nat \<Rightarrow> genai_File \<Rightarrow> cloud \<Rightarrow> ((string + genai_File) \<times> cloud) option" where
  "pollLoop fuel k upFile c =
     (if File_State upFile \<noteq> FileStateProcessing then Some (Inr upFile, c)
      else
        (case fuel of
           0 \<Rightarrow> None
         | Suc n \<Rightarrow>
             (case GetFile (File_Name upFile) k c of
                (Inl e, c1) \<Rightarrow> Some (Inl e, c1)
              | (Inr f, c1) \<Rightarrow> pollLoop n (Suc k) f c1)))"

definition responseText :: "GenerateContentResponse \<Rightarrow> analysis_error + string" where
  "responseText resp =
     (if Candidates resp = [] \<or> Parts (hd (Candidates resp)) = [] then Inl ErrEmptyResponse
      else
        (case hd (Parts (hd (Candidates resp))) of
           Text txt \<Rightarrow> Inr txt
         | Blob b \<Rightarrow> Inr []))"

text \<open>The body of \<open>analyzeReceipt\<close> after the upload, up to its \<open>return\<close>.\<close>

definition analyzeUploaded ::
    "nat \<Rightarrow> genai_File \<Rightarrow> cloud \<Rightarrow> ((analysis_error + ReceiptData list) \<times> cloud) option" where
  "analyzeUploaded fuel upFile c =
     (case pollLoop fuel 0 upFile c of
        None \<Rightarrow> None
      | Some (Inl e, c1) \<Rightarrow> Some (Inl (ErrCheck e), c1)
      | Some (Inr f, c1) \<Rightarrow>
          if File_State f \<noteq> FileStateActive then Some (Inl (ErrProcessingFailed (File_State f)), c1)
          else
            (case GenerateContent (File_URI f) c1 of
               (Inl e, c2) \<Rightarrow> Some (Inl (ErrGenerate e), c2)
             | (Inr resp, c2) \<Rightarrow>
                 (case responseText resp of
                    Inl e \<Rightarrow> Some (Inl e, c2)
                  | Inr jsonText \<Rightarrow>
                      (case parseGeminiResponse jsonText of
                         Inl e \<Rightarrow> Some (Inl ErrParse, c2)
                       | Inr dataList \<Rightarrow> Some (Inr dataList, c2)))))"

text \<open>
  \<open>analyzeReceipt\<close>: \<open>defer client.DeleteFile(ctx, upFile.Name)\<close> is registered once the
  upload has succeeded, with the name the upload returned, and runs when the function
  returns.
\<close>

definition analyzeReceipt ::
    "nat \<Rightarrow> path \<Rightarrow> world \<Rightarrow> cloud \<Rightarrow> ((analysis_error + ReceiptData list) \<times> world \<times> cloud) option" where
  "analyzeReceipt fuel p w c =
     (case os_Open p w of
        (Some e, w1) \<Rightarrow> Some (Inl (ErrOpen e), w1, c)
      | (None, w1) \<Rightarrow>
          (case UploadFile c of
             (Inl e, c1) \<Rightarrow> Some (Inl (ErrUpload e), w1, c1)
           | (Inr upFile, c1) \<Rightarrow>
               (case analyzeUploaded fuel upFile c1 of
                  None \<Rightarrow> None
                | Some (r, c2) \<Rightarrow> Some (r, w1, DeleteFile (File_Name upFile) c2))))"

subsection \<open>The per-file task and the event loop\<close>

text \<open>
  \<open>activeFiles\<close> is a \<open>sync.Map\<close> from paths to \<open>true\<close>; \<open>LoadOrStore\<close> and \<open>Delete\<close> are its
  atomic operations.
\<close>

type_synonym syncMap = "path \<rightharpoonup> bool"

definition LoadOrStore :: "path \<Rightarrow> bool \<Rightarrow> syncMap \<Rightarrow> (bool \<times> bool) \<times> syncMap" where
  "LoadOrStore k v m =
     (case m k of
        Some actual \<Rightarrow> ((actual, True), m)
      | None \<Rightarrow> ((v, False), m(k \<mapsto> v)))"

definition Delete :: "path \<Rightarrow> syncMap \<Rightarrow> syncMap" where
  "Delete k m = m(k := None)"

definition validExt :: "string \<Rightarrow> bool" where
  "validExt ext = (\<not> (ext \<noteq> ''.jpg'' \<and> ext \<noteq> ''.jpeg'' \<and> ext \<noteq> ''.png'' \<and> ext \<noteq> ''.pdf''))"

definition wait_error_text :: "wait_result \<Rightarrow> string" where
  "wait_error_text r =
     (case r of
        Stable \<Rightarrow> []
      | Timeout \<Rightarrow> ''timeout waiting for file to stabilize''
      | Disappeared \<Rightarrow> ''file disappeared''
      | StatFailed e \<Rightarrow> ''error stating file: '' @ e)"

definition analysis_error_text :: "analysis_error \<Rightarrow> string" where
  "analysis_error_text e =
     (case e of
        ErrOpen m \<Rightarrow> ''error opening file: '' @ m
      | ErrUpload m \<Rightarrow> ''upload failed: '' @ m
      | ErrCheck m \<Rightarrow> ''check failed state: '' @ m
      | ErrProcessingFailed st \<Rightarrow> ''file processing failed state''
      | ErrGenerate m \<Rightarrow> ''gemini generate error: '' @ m
      | ErrEmptyResponse \<Rightarrow> ''empty response from model''
      | ErrParse \<Rightarrow> ''failed to parse JSON as object or array'')"

text \<open>
  \<open>processEvent\<close>, the body of one task. Its first statement defers
  \<open>activeFiles.Delete(path)\<close>, which therefore runs at every return; \<open>None\<close> is a task
  that has not returned (the polling of the remote asset has not ended).
\<close>

definition processBody ::
    "nat \<Rightarrow> path \<Rightarrow> wait_env \<Rightarrow> world \<Rightarrow> cloud \<Rightarrow> (world \<times> cloud) option" where
  "processBody fuel p env w c =
     (let w0 = logf (LogDetected p) w in
      case waitForStableFile env of
        Timeout \<Rightarrow> Some (logf (LogAborted p (wait_error_text Timeout)) w0, c)
      | Disappeared \<Rightarrow> Some (logf (LogAborted p (wait_error_text Disappeared)) w0, c)
      | StatFailed e \<Rightarrow> Some (logf (LogAborted p (wait_error_text (StatFailed e))) w0, c)
      | Stable \<Rightarrow>
          if \<not> validExt (ToLower (Ext p)) then Some (w0, c)
          else
            (case analyzeReceipt fuel p (logf (LogProcessing p) w0) c of
               None \<Rightarrow> None
             | Some (Inl e, w1, c1) \<Rightarrow> Some (logf (LogAnalysisFailed p (analysis_error_text e)) w1, c1)
             | Some (Inr dataList, w1, c1) \<Rightarrow>
                 if length dataList = 0 then Some (logf (LogNoData p) w1, c1)
                 else Some (saveAndArchive p dataList w1, c1)))"

definition processEvent ::
    "nat \<Rightarrow> path \<Rightarrow> wait_env \<Rightarrow> syncMap \<Rightarrow> world \<Rightarrow> cloud \<Rightarrow> (syncMap \<times> world \<times> cloud) option" where
  "processEvent fuel p env active w c =
     (case processBody fuel p env w c of
        None \<Rightarrow> None
      | Some (w1, c1) \<Rightarrow> Some (Delete p active, w1, c1))"

text \<open>
  The notifications of fsnotify: \<open>type Op uint32\<close> is a bit set with \<open>Create = 1\<close>,
  \<open>Write = 2\<close>, \<open>Remove = 4\<close>, \<open>Rename = 8\<close>, \<open>Chmod = 16\<close>, and \<open>Has\<close> tests a bit.
\<close>

type_synonym Op = "32 word"

record Event =
  Event_Name :: path
  Event_Op :: Op

definition Create :: Op where "Create = 1"
definition Write :: Op where "Write = 2"
definition Remove :: Op where "Remove = 4"
definition Rename :: Op where "Rename = 8"
definition Chmod :: Op where "Chmod = 16"

definition Has :: "Event \<Rightarrow> Op \<Rightarrow> bool" where
  "Has e h = (Event_Op e AND h \<noteq> 0)"

text \<open>
  The state of the event loop and its tasks: the in-flight set, the paths of the
  tasks that were started and have not returned (one entry per running goroutine), and
  the events logged as ignored.
\<close>

record dispatcher =
  activeFiles :: syncMap
  running :: "path list"
  ignoredEvents :: "Event list"

text \<open>One iteration of the loop of \<open>main\<close> on a value received from \<open>watcher.Events\<close>.\<close>

definition onEvent :: "Event \<Rightarrow> dispatcher \<Rightarrow> dispatcher" where
  "onEvent event s =
     (if Has event Write \<or> Has event Create \<or> Has event Rename \<or> Has event Chmod then
        (case LoadOrStore (Event_Name event) True (activeFiles s) of
           ((actual, loaded), m) \<Rightarrow>
             if loaded then s\<lparr>activeFiles := m\<rparr>
             else s\<lparr>activeFiles := m, running := running s @ [Event_Name event]\<rparr>)
      else s\<lparr>ignoredEvents := ignoredEvents s @ [event]\<rparr>)"

text \<open>
  A running task for \<open>p\<close> returns: its deferred \<open>activeFiles.Delete(p)\<close> has run (see
  \<open>processEvent\<close>) and the goroutine is gone. Without a running task for \<open>p\<close> nothing
  can return.
\<close>

definition onReturn :: "path \<Rightarrow> dispatcher \<Rightarrow> dispatcher" where
  "onReturn p s =
     (if p \<in> set (running s)
      then s\<lparr>activeFiles := Delete p (activeFiles s), running := remove1 p (running s)\<rparr>
      else s)"

datatype action = Notify Event | Return path

fun act :: "action \<Rightarrow> dispatcher \<Rightarrow> dispatcher" where
  "act (Notify event) s = onEvent event s"
| "act (Return p) s = onReturn p s"

definition initial :: dispatcher where
  "initial = \<lparr>activeFiles = Map.empty, running = [], ignoredEvents = []\<rparr>"

text \<open>The state after a sequence of notifications and task returns, in any interleaving.\<close>

definition run :: "action list \<Rightarrow> dispatcher" where
  "run as = foldl (\<lambda>s a. act a s) initial as"

subsection \<open>Example inputs\<close>

text \<open>
  A watch directory with one scanned PDF, a destination root and no failing system
  call; three records as the model may return them.
\<close>

definition ex_world :: world where
  "ex_world =
     \<lparr>files = [''/watch/scan.pdf'' \<mapsto> ''%PDF-1.7''],
      fault = (\<lambda>n opn. None), cut = (\<lambda>n. 0), calls = 0, logs = [],
      destDir = ''/dest'', today = ''2026-11-01''\<rparr>"

definition ex_receipt :: ReceiptData where
  "ex_receipt = \<lparr>Date = ''2024-01-05'', Vendor = ''A B/C'', Category = ''Grocery'', Amount = 1200\<rparr>"




text \<open>
  A world where the rename into the originals directory crosses a device boundary and
  the watch directory does not allow the removal of files; one where it crosses a
  device boundary and the destination cannot be created; one where the path of the
  originals directory is taken by a regular file.
\<close>

definition ex_world_xdev_noremove :: world where
  "ex_world_xdev_noremove =
     ex_world\<lparr>fault := (\<lambda>n opn. case opn of
        OpRename a b \<Rightarrow> Some EXDEV
      | OpRemove a \<Rightarrow> Some ''permission denied''
      | _ \<Rightarrow> None)\<rparr>"

definition ex_world_xdev_nocreate :: world where
  "ex_world_xdev_nocreate =
     ex_world\<lparr>fault := (\<lambda>n opn. case opn of
        OpRename a b \<Rightarrow> Some EXDEV
      | OpCreate a \<Rightarrow> Some ''permission denied''
      | _ \<Rightarrow> None)\<rparr>"

definition ex_world_xdev :: world where
  "ex_world_xdev =
     ex_world\<lparr>fault := (\<lambda>n opn. case opn of OpRename a b \<Rightarrow> Some EXDEV | _ \<Rightarrow> None)\<rparr>"

definition ex_world_norename :: world where
  "ex_world_norename =
     ex_world\<lparr>fault := (\<lambda>n opn. case opn of OpRename a b \<Rightarrow> Some ''permission denied'' | _ \<Rightarrow> None)\<rparr>"

text \<open>
  A scan whose file name contains the words of the errno text, in a watch directory
  where the rename is refused for lack of permission.
\<close>

definition ex_world_named :: world where
  "ex_world_named =
     \<lparr>files = [''/watch/cross-device link.pdf'' \<mapsto> ''%PDF-1.7''],
      fault = (\<lambda>n opn. case opn of OpRename a b \<Rightarrow> Some ''permission denied'' | _ \<Rightarrow> None),
      cut = (\<lambda>n. 0), calls = 0, logs = [], destDir = ''/dest'', today = ''2026-11-01''\<rparr>"

definition ex_world_no_originals :: world where
  "ex_world_no_originals =
     ex_world\<lparr>fault := (\<lambda>n opn. if opn = OpMkdirAll ''/dest/originals'' then Some ''not a directory'' else None)\<rparr>"

definition ex_world_readonly_dest :: world where
  "ex_world_readonly_dest =
     ex_world\<lparr>fault := (\<lambda>n opn. case opn of OpCreate a \<Rightarrow> Some ''permission denied'' | _ \<Rightarrow> None)\<rparr>"

text \<open>
  The errors returned by the calls of \<open>saveProcessedFile\<close> in the loop of
  \<open>saveAndArchive\<close>, in order (\<open>None\<close> for a record that was copied).
\<close>

fun saveErrors :: "path \<Rightarrow> ReceiptData list \<Rightarrow> world \<Rightarrow> string option list" where
  "saveErrors srcPath [] w = []"
| "saveErrors srcPath (d # ds) w =
     (case saveProcessedFile srcPath d w of
        (Some e, w1) \<Rightarrow> Some e # saveErrors srcPath ds (logf (LogFailedSave e) w1)
      | (None, w1) \<Rightarrow> None # saveErrors srcPath ds w1)"

text \<open>Notifications for the scanned file, and a removal.\<close>

definition ex_create :: Event where
  "ex_create = \<lparr>Event_Name = ''/watch/scan.pdf'', Event_Op = Create\<rparr>"

definition ex_write_chmod :: Event where
  "ex_write_chmod = \<lparr>Event_Name = ''/watch/scan.pdf'', Event_Op = Write OR Chmod\<rparr>"

definition ex_rename :: Event where
  "ex_rename = \<lparr>Event_Name = ''/watch/scan.pdf'', Event_Op = Rename\<rparr>"

definition ex_remove :: Event where
  "ex_remove = \<lparr>Event_Name = ''/watch/scan.pdf'', Event_Op = Remove\<rparr>"

text \<open>
  A file of constant size; a file that grows for five seconds and then keeps its size;
  a file that stays empty; a file that is taken away after three seconds.
\<close>

definition ex_wait_steady :: wait_env where
  "ex_wait_steady = \<lparr>stat = (\<lambda>k. StatSize 2048), jitter = (\<lambda>k. 0)\<rparr>"

definition ex_wait_growing :: wait_env where
  "ex_wait_growing = \<lparr>stat = (\<lambda>k. StatSize (if k < 5 then 100 * k else 500)), jitter = (\<lambda>k. 0)\<rparr>"

definition ex_wait_empty :: wait_env where
  "ex_wait_empty = \<lparr>stat = (\<lambda>k. StatSize 0), jitter = (\<lambda>k. 0)\<rparr>"

definition ex_wait_gone :: wait_env where
  "ex_wait_gone = \<lparr>stat = (\<lambda>k. if k < 3 then StatSize 10 else StatNotExist), jitter = (\<lambda>k. 0)\<rparr>"

text \<open>
  Answers of the remote service: an upload that is processed after two polls, with a
  reply of one receipt; the same with a failed processing; with a reply without
  candidates; with the reply \<open>null\<close>; and one whose deletion is refused.
\<close>

definition ex_file :: "FileState \<Rightarrow> genai_File" where
  "ex_file st = \<lparr>File_Name = ''files/abc'', File_URI = ''https://example.invalid/files/abc'', File_State = st\<rparr>"

definition ex_json :: string where
  "ex_json = ''{\"date\":\"2024-01-05\",\"vendor\":\"ACME\",\"category\":\"Grocery\",\"total_amount\":1200}''"

definition ex_json_array :: string where
  "ex_json_array = ''[{\"date\":\"2024-01-05\",\"vendor\":\"ACME\",\"category\":\"Grocery\",\"total_amount\":1200}, {\"date\":\"2024-01-06\",\"vendor\":\"A B\",\"category\":\"Tax\",\"total_amount\":80}]''"

definition ex_cloud :: cloud where
  "ex_cloud =
     \<lparr>uploadReply = Inr (ex_file FileStateProcessing),
      getReply = (\<lambda>k. Inr (ex_file (if k < 2 then FileStateProcessing else FileStateActive))),
      generateReply = Inr \<lparr>Candidates = [\<lparr>Parts = [Text ex_json]\<rparr>]\<rparr>,
      deleteReply = None, assets = {}, api = []\<rparr>"

definition ex_cloud_failed :: cloud where
  "ex_cloud_failed =
     ex_cloud\<lparr>getReply := (\<lambda>k. Inr (ex_file (if k < 2 then FileStateProcessing else FileStateFailed)))\<rparr>"

definition ex_cloud_empty :: cloud where
  "ex_cloud_empty = ex_cloud\<lparr>generateReply := Inr \<lparr>Candidates = []\<rparr>\<rparr>"

definition ex_cloud_null :: cloud where
  "ex_cloud_null = ex_cloud\<lparr>generateReply := Inr \<lparr>Candidates = [\<lparr>Parts = [Text ''null'']\<rparr>]\<rparr>\<rparr>"

text \<open>A text file dropped into the watch directory.\<close>

definition ex_world_txt :: world where
  "ex_world_txt = ex_world\<lparr>files := [''/watch/notes.txt'' \<mapsto> ''hello'']\<rparr>"

section \<open>Properties\<close>

subsection \<open>Strings, system calls and their frames\<close>







lemma called_simps [simp]:
  "files (called w) = files w" "logs (called w) = logs w" "destDir (called w) = destDir w"
  "today (called w) = today w" "fault (called w) = fault w" "cut (called w) = cut w"
  by (simp_all add: called_def)

lemma logf_simps [simp]:
  "files (logf e w) = files w" "logs (logf e w) = logs w @ [e]" "destDir (logf e w) = destDir w"
  "today (logf e w) = today w" "fault (logf e w) = fault w" "cut (logf e w) = cut w"
  by (simp_all add: logf_def)

lemma os_MkdirAll_frame:
  assumes "os_MkdirAll p w = (r, w')"
  shows "files w' = files w" "logs w' = logs w" "destDir w' = destDir w" "today w' = today w"
  using assms by (auto simp: os_MkdirAll_def split: option.splits)

lemma os_Rename_ok:
  assumes "os_Rename src dst w = (None, w')"
  shows "\<exists>c. files w src = Some c \<and> files w' = ((files w)(src := None))(dst \<mapsto> c)"
    "logs w' = logs w" "destDir w' = destDir w" "today w' = today w"
  using assms by (auto simp: os_Rename_def split: option.splits)

lemma os_Rename_fail:
  assumes "os_Rename src dst w = (Some e, w')"
  shows "files w' = files w" "logs w' = logs w" "destDir w' = destDir w" "today w' = today w"
  using assms by (auto simp: os_Rename_def split: option.splits)

lemma os_Remove_ok:
  assumes "os_Remove p w = (None, w')"
  shows "files w' = (files w)(p := None)" "logs w' = logs w" "destDir w' = destDir w" "today w' = today w"
  using assms by (auto simp: os_Remove_def split: option.splits)

lemma os_Remove_fail:
  assumes "os_Remove p w = (Some e, w')"
  shows "files w' = files w" "logs w' = logs w" "destDir w' = destDir w" "today w' = today w"
  using assms by (auto simp: os_Remove_def split: option.splits)

lemma robustCopy_frame:
  assumes "robustCopy src dst w = (r, w')"
  shows "\<forall>p. p \<noteq> dst \<longrightarrow> files w' p = files w p"
    "files w dst \<noteq> None \<longrightarrow> files w' dst \<noteq> None"
    "logs w' = logs w" "destDir w' = destDir w" "today w' = today w"
  using assms
  by (auto simp: robustCopy_def os_Open_def os_Create_def io_Copy_def Let_def split: option.splits if_splits)

lemma robustCopy_ok:
  assumes "robustCopy src dst w = (None, w')"
  shows "\<exists>c. files w src = Some c \<and> files w' = (files w)(dst \<mapsto> (if dst = src then [] else c))"
  using assms
  by (auto simp: robustCopy_def os_Open_def os_Create_def io_Copy_def Let_def split: option.splits if_splits)



subsection \<open>File names and category directories\<close>






subsection \<open>The move into the originals directory\<close>

lemma Contains_here: "Contains (s @ b) s"
proof (cases "s @ b")
  case Nil
  then show ?thesis by simp
next
  case (Cons x xs)
  have "take (length s) (s @ b) = s" by simp
  with Cons show ?thesis by simp
qed

lemma Contains_append: "Contains (a @ s @ b) s"
  by (induction a) (auto simp: Contains_here)

lemma Contains_EXDEV: "Contains (LinkError opn old new EXDEV) ''cross-device link''"
proof -
  have "LinkError opn old new EXDEV =
      (opn @ '' '' @ old @ '' '' @ new @ '': invalid '') @ ''cross-device link'' @ []"
    by (simp add: LinkError_def EXDEV_def)
  then show ?thesis using Contains_append by metis
qed

lemma robustMove_renamed:
  assumes "os_Rename src dst w = (None, w1)"
  shows "robustMove src dst w = (None, w1)" "src \<noteq> dst \<longrightarrow> files w1 src = None"
    "files w1 dst = files w src" "files w src \<noteq> None"
  using assms os_Rename_ok(1)[OF assms] by (auto simp: robustMove_def)

lemma robustMove_other:
  assumes "os_Rename src dst w = (Some e, w1)" "\<not> Contains e ''cross-device link''"
  shows "robustMove src dst w = (Some e, w1)" "files w1 = files w"
  using assms os_Rename_fail(1)[OF assms(1)] by (auto simp: robustMove_def)

lemma robustMove_fallback:
  assumes "os_Rename src dst w = (Some e, w1)" "Contains e ''cross-device link''"
  shows "robustMove src dst w =
      (case robustCopy src dst w1 of (Some e2, w2) \<Rightarrow> (Some e2, w2) | (None, w2) \<Rightarrow> os_Remove src w2)"
  using assms by (simp add: robustMove_def)

lemma robustMove_fallback_ok:
  assumes "os_Rename src dst w = (Some e, w1)" "Contains e ''cross-device link''"
    and "robustMove src dst w = (None, w')" and "src \<noteq> dst"
  shows "files w' src = None" "files w' dst = files w src" "files w src \<noteq> None"
proof -
  from assms obtain w2 where c: "robustCopy src dst w1 = (None, w2)" and r: "os_Remove src w2 = (None, w')"
    by (auto simp: robustMove_def split: prod.splits option.splits)
  from robustCopy_ok[OF c] \<open>src \<noteq> dst\<close> obtain x where x: "files w1 src = Some x" "files w2 = (files w1)(dst \<mapsto> x)"
    by auto
  from os_Remove_ok(1)[OF r] have "files w' = (files w2)(src := None)" .
  with x os_Rename_fail(1)[OF assms(1)] \<open>src \<noteq> dst\<close>
  show "files w' src = None" "files w' dst = files w src" "files w src \<noteq> None"
    by auto
qed

lemma robustMove_fail_keeps:
  assumes "robustMove src dst w = (Some e, w')" and "src \<noteq> dst"
  shows "files w' src = files w src"
proof (cases "os_Rename src dst w")
  case (Pair r w1)
  show ?thesis
  proof (cases r)
    case None
    with Pair assms show ?thesis by (simp add: robustMove_def)
  next
    case (Some e1)
    note f = os_Rename_fail(1)[OF Pair[unfolded Some]]
    show ?thesis
    proof (cases "Contains e1 ''cross-device link''")
      case False
      with Pair Some assms f show ?thesis by (simp add: robustMove_def)
    next
      case True
      obtain r2 w2 where c: "robustCopy src dst w1 = (r2, w2)" by (cases "robustCopy src dst w1")
      from robustCopy_frame(1)[OF c] \<open>src \<noteq> dst\<close> have k: "files w2 src = files w1 src" by simp
      show ?thesis
      proof (cases r2)
        case (Some e2)
        with Pair \<open>r = Some e1\<close> True c assms have "w' = w2" by (simp add: robustMove_def)
        with k f show ?thesis by simp
      next
        case None
        with Pair \<open>r = Some e1\<close> True c assms have "os_Remove src w2 = (Some e, w')"
          by (simp add: robustMove_def)
        from os_Remove_fail(1)[OF this] k f show ?thesis by simp
      qed
    qed
  qed
qed

lemma robustMove_static:
  assumes "robustMove src dst w = (r, w')"
  shows "logs w' = logs w" "destDir w' = destDir w" "today w' = today w"
  using assms
  by (auto simp: robustMove_def robustCopy_def os_Rename_def os_Open_def os_Create_def io_Copy_def os_Remove_def Let_def
      split: option.splits if_splits prod.splits)

lemmas ex_worlds = ex_world_def ex_world_xdev_def ex_world_xdev_noremove_def ex_world_xdev_nocreate_def
  ex_world_norename_def ex_world_no_originals_def ex_world_readonly_dest_def
lemmas move_eval = robustMove_def robustCopy_def os_Rename_def os_Open_def os_Create_def io_Copy_def os_Remove_def
  called_def LinkError_def PathError_def EXDEV_def ENOENT_def

text \<open>
  C4 as stated fails: the fallback can fail. The rename crosses a device boundary;
  in the first world the copy succeeds and the removal of the source is refused, so
  \<open>robustMove\<close> returns the error of \<open>os.Remove\<close> and the source is still present;
  in the second the destination cannot be created, so it returns the error of
  \<open>os.Create\<close>, the source is present and the destination absent.
\<close>

theorem robustMove_counterexample:
  "fault ex_world_xdev_noremove (calls ex_world_xdev_noremove)
      (OpRename ''/watch/scan.pdf'' ''/dest/originals/scan.pdf'') = Some EXDEV
   \<and> fst (os_Rename ''/watch/scan.pdf'' ''/dest/originals/scan.pdf'' ex_world_xdev_noremove)
       = Some ''rename /watch/scan.pdf /dest/originals/scan.pdf: invalid cross-device link''
   \<and> fst (robustMove ''/watch/scan.pdf'' ''/dest/originals/scan.pdf'' ex_world_xdev_noremove)
       = Some ''remove /watch/scan.pdf: permission denied''
   \<and> files (snd (robustMove ''/watch/scan.pdf'' ''/dest/originals/scan.pdf'' ex_world_xdev_noremove))
       ''/watch/scan.pdf'' = Some ''%PDF-1.7''
   \<and> fst (robustMove ''/watch/scan.pdf'' ''/dest/originals/scan.pdf'' ex_world_xdev_nocreate)
       = Some ''open /dest/originals/scan.pdf: permission denied''
   \<and> files (snd (robustMove ''/watch/scan.pdf'' ''/dest/originals/scan.pdf'' ex_world_xdev_nocreate))
       ''/watch/scan.pdf'' = Some ''%PDF-1.7''
   \<and> files (snd (robustMove ''/watch/scan.pdf'' ''/dest/originals/scan.pdf'' ex_world_xdev_nocreate))
       ''/dest/originals/scan.pdf'' = None"
  by (simp add: ex_worlds move_eval)

text \<open>
  C4, amended. \<open>robustMove\<close> first attempts the rename, and a successful rename is
  the whole move. A rename refused with the cross-device errno is recognised (the
  program looks for the text \<open>cross-device link\<close> in the error message), and for every
  error so recognised the move falls back to copy-then-delete: the result is that of
  \<open>robustCopy\<close> followed by \<open>os.Remove\<close>; when both succeed the source is absent and the
  destination holds the bytes of the source; when either fails its error is returned
  and the source is still in place. An error without that text is returned as it is,
  and no file has changed.
\<close>

theorem robustMove_cases:
  "(\<forall>w1. os_Rename src dst w = (None, w1) \<longrightarrow>
       robustMove src dst w = (None, w1) \<and> (src \<noteq> dst \<longrightarrow> files w1 src = None)
       \<and> files w1 dst = files w src \<and> files w src \<noteq> None)
   \<and> (fault w (calls w) (OpRename src dst) = Some EXDEV \<longrightarrow>
       (\<exists>e w1. os_Rename src dst w = (Some e, w1) \<and> Contains e ''cross-device link''))
   \<and> (\<forall>e w1. os_Rename src dst w = (Some e, w1) \<and> Contains e ''cross-device link'' \<longrightarrow>
       robustMove src dst w =
         (case robustCopy src dst w1 of
            (Some e2, w2) \<Rightarrow> (Some e2, w2)
          | (None, w2) \<Rightarrow> os_Remove src w2)
       \<and> (\<forall>w'. robustMove src dst w = (None, w') \<and> src \<noteq> dst \<longrightarrow>
             files w' src = None \<and> files w' dst = files w src \<and> files w src \<noteq> None)
       \<and> (\<forall>e2 w'. robustMove src dst w = (Some e2, w') \<and> src \<noteq> dst \<longrightarrow>
             files w' src = files w src))
   \<and> (\<forall>e w1. os_Rename src dst w = (Some e, w1) \<and> \<not> Contains e ''cross-device link'' \<longrightarrow>
       robustMove src dst w = (Some e, w1) \<and> files w1 = files w)"
proof -
  have a: "\<forall>w1. os_Rename src dst w = (None, w1) \<longrightarrow>
       robustMove src dst w = (None, w1) \<and> (src \<noteq> dst \<longrightarrow> files w1 src = None)
       \<and> files w1 dst = files w src \<and> files w src \<noteq> None"
    using robustMove_renamed by blast
  have b: "fault w (calls w) (OpRename src dst) = Some EXDEV \<longrightarrow>
       (\<exists>e w1. os_Rename src dst w = (Some e, w1) \<and> Contains e ''cross-device link'')"
    using Contains_EXDEV by (simp add: os_Rename_def)
  have c: "\<forall>e w1. os_Rename src dst w = (Some e, w1) \<and> Contains e ''cross-device link'' \<longrightarrow>
       robustMove src dst w =
         (case robustCopy src dst w1 of
            (Some e2, w2) \<Rightarrow> (Some e2, w2)
          | (None, w2) \<Rightarrow> os_Remove src w2)
       \<and> (\<forall>w'. robustMove src dst w = (None, w') \<and> src \<noteq> dst \<longrightarrow>
             files w' src = None \<and> files w' dst = files w src \<and> files w src \<noteq> None)
       \<and> (\<forall>e2 w'. robustMove src dst w = (Some e2, w') \<and> src \<noteq> dst \<longrightarrow>
             files w' src = files w src)"
  proof (intro allI impI, elim conjE)
    fix e w1
    assume r: "os_Rename src dst w = (Some e, w1)" and x: "Contains e ''cross-device link''"
    have 1: "\<forall>w'. robustMove src dst w = (None, w') \<and> src \<noteq> dst \<longrightarrow>
             files w' src = None \<and> files w' dst = files w src \<and> files w src \<noteq> None"
      using robustMove_fallback_ok[OF r x] by blast
    have 2: "\<forall>e2 w'. robustMove src dst w = (Some e2, w') \<and> src \<noteq> dst \<longrightarrow>
             files w' src = files w src"
      using robustMove_fail_keeps by blast
    from robustMove_fallback[OF r x] 1 2
    show "robustMove src dst w =
         (case robustCopy src dst w1 of
            (Some e2, w2) \<Rightarrow> (Some e2, w2)
          | (None, w2) \<Rightarrow> os_Remove src w2)
       \<and> (\<forall>w'. robustMove src dst w = (None, w') \<and> src \<noteq> dst \<longrightarrow>
             files w' src = None \<and> files w' dst = files w src \<and> files w src \<noteq> None)
       \<and> (\<forall>e2 w'. robustMove src dst w = (Some e2, w') \<and> src \<noteq> dst \<longrightarrow>
             files w' src = files w src)"
      by (intro conjI)
  qed
  have d: "\<forall>e w1. os_Rename src dst w = (Some e, w1) \<and> \<not> Contains e ''cross-device link'' \<longrightarrow>
       robustMove src dst w = (Some e, w1) \<and> files w1 = files w"
    using robustMove_other by blast
  from a b c d show ?thesis by (intro conjI)
qed

theorem robustMove_cases_witness:
  "fst (os_Rename ''/watch/scan.pdf'' ''/dest/originals/scan.pdf'' ex_world) = None
   \<and> robustMove ''/watch/scan.pdf'' ''/dest/originals/scan.pdf'' ex_world
       = (None, snd (os_Rename ''/watch/scan.pdf'' ''/dest/originals/scan.pdf'' ex_world))
   \<and> files (snd (robustMove ''/watch/scan.pdf'' ''/dest/originals/scan.pdf'' ex_world)) ''/dest/originals/scan.pdf''
       = Some ''%PDF-1.7''
   \<and> fault ex_world_xdev (calls ex_world_xdev) (OpRename ''/watch/scan.pdf'' ''/dest/originals/scan.pdf'') = Some EXDEV
   \<and> fst (robustMove ''/watch/scan.pdf'' ''/dest/originals/scan.pdf'' ex_world_xdev) = None
   \<and> files (snd (robustMove ''/watch/scan.pdf'' ''/dest/originals/scan.pdf'' ex_world_xdev)) ''/watch/scan.pdf'' = None
   \<and> files (snd (robustMove ''/watch/scan.pdf'' ''/dest/originals/scan.pdf'' ex_world_xdev)) ''/dest/originals/scan.pdf''
       = Some ''%PDF-1.7''
   \<and> fst (robustMove ''/watch/scan.pdf'' ''/dest/originals/scan.pdf'' ex_world_xdev_noremove)
       = Some ''remove /watch/scan.pdf: permission denied''
   \<and> files (snd (robustMove ''/watch/scan.pdf'' ''/dest/originals/scan.pdf'' ex_world_xdev_noremove)) ''/watch/scan.pdf''
       = Some ''%PDF-1.7''
   \<and> \<not> Contains ''rename /watch/scan.pdf /dest/originals/scan.pdf: permission denied'' ''cross-device link''
   \<and> fst (robustMove ''/watch/scan.pdf'' ''/dest/originals/scan.pdf'' ex_world_norename)
       = Some ''rename /watch/scan.pdf /dest/originals/scan.pdf: permission denied''
   \<and> files (snd (robustMove ''/watch/scan.pdf'' ''/dest/originals/scan.pdf'' ex_world_norename)) = files ex_world_norename"
proof -
  let ?S = "''/watch/scan.pdf''" and ?D = "''/dest/originals/scan.pdf''"
  have ne: "?S \<noteq> ?D" by simp
  have src: "files ex_world ?S = Some ''%PDF-1.7''" "files ex_world_xdev ?S = Some ''%PDF-1.7''"
    "files ex_world_xdev_noremove ?S = Some ''%PDF-1.7''"
    by (simp_all add: ex_worlds)
  \<comment> \<open>the rename succeeds\<close>
  have h1: "fst (os_Rename ?S ?D ex_world) = None"
    by (simp add: ex_worlds os_Rename_def)
  then have h1': "os_Rename ?S ?D ex_world = (None, snd (os_Rename ?S ?D ex_world))"
    by (simp add: prod_eq_iff)
  note t1 = robustMove_cases[of ?S ?D ex_world, THEN conjunct1, rule_format, OF h1']
  from t1 have m1: "robustMove ?S ?D ex_world = (None, snd (os_Rename ?S ?D ex_world))" by (rule conjunct1)
  from t1 src(1) have d1: "files (snd (robustMove ?S ?D ex_world)) ?D = Some ''%PDF-1.7''"
    by (simp del: Contains.simps)
  \<comment> \<open>the rename crosses devices, copy and delete succeed\<close>
  have f2: "fault ex_world_xdev (calls ex_world_xdev) (OpRename ?S ?D) = Some EXDEV"
    by (simp add: ex_worlds)
  from robustMove_cases[of ?S ?D ex_world_xdev, THEN conjunct2, THEN conjunct1, rule_format, OF f2]
  obtain e w1 where r2: "os_Rename ?S ?D ex_world_xdev = (Some e, w1)" and x2: "Contains e ''cross-device link''"
    by blast
  have ok2: "fst (robustMove ?S ?D ex_world_xdev) = None"
    by (simp add: ex_worlds move_eval)
  then have ok2': "robustMove ?S ?D ex_world_xdev = (None, snd (robustMove ?S ?D ex_world_xdev))"
    by (simp add: prod_eq_iff)
  note t2 = robustMove_cases[of ?S ?D ex_world_xdev, THEN conjunct2, THEN conjunct2, THEN conjunct1, rule_format,
      OF conjI[OF r2 x2], THEN conjunct2, THEN conjunct1, rule_format, OF conjI[OF ok2' ne]]
  from t2 src(2) have c2: "files (snd (robustMove ?S ?D ex_world_xdev)) ?S = None"
    "files (snd (robustMove ?S ?D ex_world_xdev)) ?D = Some ''%PDF-1.7''"
    by simp_all
  \<comment> \<open>the rename crosses devices, the delete fails\<close>
  have f3: "fault ex_world_xdev_noremove (calls ex_world_xdev_noremove) (OpRename ?S ?D) = Some EXDEV"
    by (simp add: ex_worlds)
  from robustMove_cases[of ?S ?D ex_world_xdev_noremove, THEN conjunct2, THEN conjunct1, rule_format, OF f3]
  obtain e3 w3 where r3: "os_Rename ?S ?D ex_world_xdev_noremove = (Some e3, w3)" and x3: "Contains e3 ''cross-device link''"
    by blast
  have ko3: "fst (robustMove ?S ?D ex_world_xdev_noremove) = Some ''remove /watch/scan.pdf: permission denied''"
    by (simp add: ex_worlds move_eval)
  then have ko3': "robustMove ?S ?D ex_world_xdev_noremove =
      (Some ''remove /watch/scan.pdf: permission denied'', snd (robustMove ?S ?D ex_world_xdev_noremove))"
    by (simp add: prod_eq_iff)
  note t3 = robustMove_cases[of ?S ?D ex_world_xdev_noremove, THEN conjunct2, THEN conjunct2, THEN conjunct1,
      rule_format, OF conjI[OF r3 x3], THEN conjunct2, THEN conjunct2, rule_format, OF conjI[OF ko3' ne]]
  from t3 src(3) have c3: "files (snd (robustMove ?S ?D ex_world_xdev_noremove)) ?S = Some ''%PDF-1.7''"
    by simp
  \<comment> \<open>the rename fails for another reason\<close>
  have n4: "\<not> Contains ''rename /watch/scan.pdf /dest/originals/scan.pdf: permission denied'' ''cross-device link''"
    by simp
  have r4: "os_Rename ?S ?D ex_world_norename =
      (Some ''rename /watch/scan.pdf /dest/originals/scan.pdf: permission denied'',
       snd (os_Rename ?S ?D ex_world_norename))"
    by (simp add: ex_worlds os_Rename_def LinkError_def prod_eq_iff)
  note t4 = robustMove_cases[of ?S ?D ex_world_norename, THEN conjunct2, THEN conjunct2, THEN conjunct2,
      rule_format, OF conjI[OF r4 n4]]
  from t4 have c4: "fst (robustMove ?S ?D ex_world_norename)
       = Some ''rename /watch/scan.pdf /dest/originals/scan.pdf: permission denied''"
    "files (snd (robustMove ?S ?D ex_world_norename)) = files ex_world_norename"
    by simp_all
  from h1 m1 d1 f2 ok2 c2 ko3 c3 n4 c4 show ?thesis by (intro conjI)
qed

text \<open>
  The test for the cross-device condition reads the whole message of the error, and
  the message of a failed rename names both paths. When a path contains the words
  \<open>cross-device link\<close>, a rename refused for any reason takes the fallback: here it is
  refused for lack of permission, and the file is copied and removed all the same.
\<close>

lemma robustMove_path_text:
  "fst (os_Rename ''/watch/cross-device link.pdf'' ''/dest/originals/cross-device link.pdf'' ex_world_named)
     = Some ''rename /watch/cross-device link.pdf /dest/originals/cross-device link.pdf: permission denied''
   \<and> fst (robustMove ''/watch/cross-device link.pdf'' ''/dest/originals/cross-device link.pdf'' ex_world_named) = None
   \<and> files (snd (robustMove ''/watch/cross-device link.pdf'' ''/dest/originals/cross-device link.pdf'' ex_world_named))
        ''/watch/cross-device link.pdf'' = None"
  by (simp add: ex_world_named_def move_eval)

subsection \<open>The at-least-one-success gate of the committer\<close>

lemma processedPath_cong:
  "destDir w' = destDir w \<Longrightarrow> today w' = today w \<Longrightarrow> processedPath w' src d = processedPath w src d"
  by (simp add: processedPath_def processedDir_def processedFileName_def dateOf_def)

lemma saveProcessedFile_frame:
  assumes "saveProcessedFile src d w = (r, w')"
  shows "\<forall>p. p \<noteq> processedPath w src d \<longrightarrow> files w' p = files w p"
    "\<forall>p. files w p \<noteq> None \<longrightarrow> files w' p \<noteq> None"
    "destDir w' = destDir w" "today w' = today w"
proof -
  obtain r1 w1 where m: "os_MkdirAll (processedDir w d) w = (r1, w1)" by (cases "os_MkdirAll (processedDir w d) w")
  obtain r2 w2 where c: "robustCopy src (processedPath w src d) w1 = (r2, w2)"
    by (cases "robustCopy src (processedPath w src d) w1")
  note fm = os_MkdirAll_frame[OF m] and fc = robustCopy_frame[OF c]
  have w': "w' = w1 \<or> w' = w2 \<or> w' = logf (LogSaved (processedPath w src d)) w2"
    and "r1 \<noteq> None \<longrightarrow> w' = w1"
    using assms m c by (auto simp: saveProcessedFile_def split: option.splits)
  have mono: "\<forall>p. files w1 p \<noteq> None \<longrightarrow> files w2 p \<noteq> None"
    using fc(1,2) by metis
  have "(\<forall>p. p \<noteq> processedPath w src d \<longrightarrow> files w' p = files w p)
    \<and> (\<forall>p. files w p \<noteq> None \<longrightarrow> files w' p \<noteq> None)
    \<and> destDir w' = destDir w \<and> today w' = today w"
    using w' fm fc(1,4,5) mono by (elim disjE) simp_all
  then show "\<forall>p. p \<noteq> processedPath w src d \<longrightarrow> files w' p = files w p"
    "\<forall>p. files w p \<noteq> None \<longrightarrow> files w' p \<noteq> None"
    "destDir w' = destDir w" "today w' = today w"
    by blast+
qed

lemma saveAll_count:
  "fst (saveAll src ds k w) = k + length (filter (\<lambda>r. r = None) (saveErrors src ds w))"
  by (induction ds arbitrary: k w) (auto split: prod.splits option.splits)

lemma saveAll_frame:
  "saveAll src ds k w = (n, w') \<Longrightarrow>
     (\<forall>p. p \<notin> set (map (processedPath w src) ds) \<longrightarrow> files w' p = files w p)
   \<and> (\<forall>p. files w p \<noteq> None \<longrightarrow> files w' p \<noteq> None)
   \<and> destDir w' = destDir w \<and> today w' = today w"
proof (induction ds arbitrary: k w)
  case Nil
  then show ?case by simp
next
  case (Cons d ds)
  obtain r w1 where s: "saveProcessedFile src d w = (r, w1)" by (cases "saveProcessedFile src d w")
  note f = saveProcessedFile_frame[OF s]
  define w2 where "w2 = (case r of None \<Rightarrow> w1 | Some e \<Rightarrow> logf (LogFailedSave e) w1)"
  define k2 where "k2 = (case r of None \<Rightarrow> Suc k | Some e \<Rightarrow> k)"
  have w2: "files w2 = files w1" "destDir w2 = destDir w1" "today w2 = today w1"
    by (auto simp: w2_def split: option.splits)
  from Cons.prems s have "saveAll src ds k2 w2 = (n, w')"
    by (auto simp: w2_def k2_def split: option.splits)
  from Cons.IH[OF this] have ih:
    "\<forall>p. p \<notin> set (map (processedPath w2 src) ds) \<longrightarrow> files w' p = files w2 p"
    "\<forall>p. files w2 p \<noteq> None \<longrightarrow> files w' p \<noteq> None"
    "destDir w' = destDir w2" "today w' = today w2"
    by blast+
  have pp: "processedPath w2 src = processedPath w src"
    using processedPath_cong[of w2 w src] w2 f by auto
  show ?case using ih f w2 unfolding pp by auto
qed

lemma archiveOriginalFile_log:
  "\<exists>x. logs (archiveOriginalFile src w) = logs w @ [x] \<and>
     ((\<exists>e. x = LogFailedOriginalsDir e) \<or> (\<exists>e. x = LogFailedMove e) \<or> x = LogArchived (originalsPath w src))"
proof -
  obtain r1 w1 where m: "os_MkdirAll (originalsDir w) w = (r1, w1)" by (cases "os_MkdirAll (originalsDir w) w")
  obtain r2 w2 where c: "robustMove src (originalsPath w src) w1 = (r2, w2)"
    by (cases "robustMove src (originalsPath w src) w1")
  from os_MkdirAll_frame[OF m] robustMove_static[OF c] show ?thesis
    by (auto simp: archiveOriginalFile_def m c split: option.splits)
qed

lemma archiveOriginalFile_done:
  assumes "last (logs (archiveOriginalFile src w)) = LogArchived (originalsPath w src)"
    and "originalsPath w src \<noteq> src"
  shows "files (archiveOriginalFile src w) src = None"
    "files (archiveOriginalFile src w) (originalsPath w src) = files w src" "files w src \<noteq> None"
proof -
  obtain r1 w1 where m: "os_MkdirAll (originalsDir w) w = (r1, w1)" by (cases "os_MkdirAll (originalsDir w) w")
  obtain r2 w2 where c: "robustMove src (originalsPath w src) w1 = (r2, w2)"
    by (cases "robustMove src (originalsPath w src) w1")
  from assms(1) have r: "r1 = None" "r2 = None"
    by (auto simp: archiveOriginalFile_def m c split: option.splits)
  then have a: "archiveOriginalFile src w = logf (LogArchived (originalsPath w src)) w2"
    by (simp add: archiveOriginalFile_def m c)
  note fm = os_MkdirAll_frame(1)[OF m]
  have "files w2 src = None \<and> files w2 (originalsPath w src) = files w1 src \<and> files w1 src \<noteq> None"
  proof (cases "os_Rename src (originalsPath w src) w1")
    case (Pair r3 w3)
    show ?thesis
    proof (cases r3)
      case None
      with robustMove_renamed[OF Pair[unfolded None]] c assms(2) show ?thesis by auto
    next
      case (Some e)
      show ?thesis
      proof (cases "Contains e ''cross-device link''")
        case True
        from robustMove_fallback_ok[OF Pair[unfolded Some] True c[unfolded r]] assms(2)
        show ?thesis by auto
      next
        case False
        from robustMove_other(1)[OF Pair[unfolded Some] False] c r show ?thesis by simp
      qed
    qed
  qed
  with a fm show "files (archiveOriginalFile src w) src = None"
    "files (archiveOriginalFile src w) (originalsPath w src) = files w src" "files w src \<noteq> None"
    by auto
qed

lemma robustMove_fail_exists:
  assumes "robustMove src dst w = (Some e, w')" and "files w src \<noteq> None"
  shows "files w' src \<noteq> None"
  using assms
  by (auto simp: robustMove_def robustCopy_def os_Rename_def os_Open_def os_Create_def io_Copy_def os_Remove_def Let_def
      split: option.splits if_splits prod.splits)

lemma archiveOriginalFile_failed:
  assumes "last (logs (archiveOriginalFile src w)) \<noteq> LogArchived (originalsPath w src)"
    and "files w src \<noteq> None"
  shows "files (archiveOriginalFile src w) src \<noteq> None"
    "(\<exists>e. last (logs (archiveOriginalFile src w)) = LogFailedOriginalsDir e)
     \<or> (\<exists>e. last (logs (archiveOriginalFile src w)) = LogFailedMove e)"
proof -
  obtain r1 w1 where m: "os_MkdirAll (originalsDir w) w = (r1, w1)" by (cases "os_MkdirAll (originalsDir w) w")
  obtain r2 w2 where c: "robustMove src (originalsPath w src) w1 = (r2, w2)"
    by (cases "robustMove src (originalsPath w src) w1")
  note fm = os_MkdirAll_frame(1)[OF m]
  show "files (archiveOriginalFile src w) src \<noteq> None"
  proof (cases r1)
    case (Some e)
    with m fm assms(2) show ?thesis by (simp add: archiveOriginalFile_def)
  next
    case None
    show ?thesis
    proof (cases r2)
      case (Some e)
      from robustMove_fail_exists[OF c[unfolded Some]] fm assms(2) have "files w2 src \<noteq> None" by simp
      with None Some m c show ?thesis by (simp add: archiveOriginalFile_def)
    next
      case n2: None
      with None m c assms(1) show ?thesis by (simp add: archiveOriginalFile_def)
    qed
  qed
  from archiveOriginalFile_log[of src w] assms(1)
  show "(\<exists>e. last (logs (archiveOriginalFile src w)) = LogFailedOriginalsDir e)
     \<or> (\<exists>e. last (logs (archiveOriginalFile src w)) = LogFailedMove e)"
    by auto
qed

lemmas commit_eval = saveAndArchive_def archiveOriginalFile_def originalsDir_def originalsPath_def Base_def
  saveProcessedFile_def processedDir_def processedPath_def processedFileName_def
  categoryOf_def dateOf_def normVendor_def Join_def Clean_def fmt_d_def digit_def yen_def Ext_def
  os_MkdirAll_def logf_def move_eval ex_receipt_def

text \<open>
  C1 as stated fails: a successful copy does not imply that the original is archived.
  Here the one record is copied, the path of the originals directory is taken by a
  regular file, \<open>archiveOriginalFile\<close> logs the failure and returns; the source file is
  still at its path and there is no entry under \<open>originals\<close>.
\<close>

theorem saveAndArchive_counterexample:
  "saveErrors ''/watch/scan.pdf'' [ex_receipt] ex_world_no_originals = [None]
   \<and> files (saveAndArchive ''/watch/scan.pdf'' [ex_receipt] ex_world_no_originals) ''/watch/scan.pdf''
       = Some ''%PDF-1.7''
   \<and> originalsPath ex_world_no_originals ''/watch/scan.pdf'' = ''/dest/originals/scan.pdf''
   \<and> files (saveAndArchive ''/watch/scan.pdf'' [ex_receipt] ex_world_no_originals) ''/dest/originals/scan.pdf''
       = None
   \<and> logs (saveAndArchive ''/watch/scan.pdf'' [ex_receipt] ex_world_no_originals)
       = [LogSaved (''/dest/Grocery/2024-01-05_AB-C_1200'' @ yen @ ''.pdf''),
          LogFailedOriginalsDir ''mkdir /dest/originals: not a directory'']"
  by (simp add: ex_worlds commit_eval)

text \<open>
  C1, amended. The success counter of \<open>saveAndArchive\<close> is the number of records whose
  \<open>saveProcessedFile\<close> returned no error, and the archive step runs if and only if it is
  positive. With zero successes the skip is logged, the source file still exists, and
  no path other than the destination paths of the records has changed (so the
  committer made no entry under \<open>originals\<close>). With at least one success
  \<open>archiveOriginalFile\<close> runs: when it logs the archive as done (and the originals
  path is not the source path itself) the source file no longer exists and the entry
  with its base name exists under \<open>originals\<close>; when it fails, it logs the failing
  directory creation or move and the source file still exists.
\<close>

theorem saveAndArchive_gate:
  "fst (saveAll srcPath dataList 0 w) = length (filter (\<lambda>r. r = None) (saveErrors srcPath dataList w))
   \<and> (fst (saveAll srcPath dataList 0 w) = 0 \<longrightarrow>
        saveAndArchive srcPath dataList w = logf (LogSkipArchive srcPath) (snd (saveAll srcPath dataList 0 w))
        \<and> (files w srcPath \<noteq> None \<longrightarrow> files (saveAndArchive srcPath dataList w) srcPath \<noteq> None)
        \<and> (\<forall>p. p \<notin> set (map (processedPath w srcPath) dataList) \<longrightarrow>
              files (saveAndArchive srcPath dataList w) p = files w p))
   \<and> (0 < fst (saveAll srcPath dataList 0 w) \<longrightarrow>
        saveAndArchive srcPath dataList w = archiveOriginalFile srcPath (snd (saveAll srcPath dataList 0 w))
        \<and> (last (logs (saveAndArchive srcPath dataList w)) = LogArchived (originalsPath w srcPath)
             \<and> originalsPath w srcPath \<noteq> srcPath \<longrightarrow>
              files (saveAndArchive srcPath dataList w) srcPath = None
              \<and> files (saveAndArchive srcPath dataList w) (originalsPath w srcPath) \<noteq> None)
        \<and> (last (logs (saveAndArchive srcPath dataList w)) \<noteq> LogArchived (originalsPath w srcPath)
             \<and> files w srcPath \<noteq> None \<longrightarrow>
              files (saveAndArchive srcPath dataList w) srcPath \<noteq> None
              \<and> ((\<exists>e. last (logs (saveAndArchive srcPath dataList w)) = LogFailedOriginalsDir e)
                  \<or> (\<exists>e. last (logs (saveAndArchive srcPath dataList w)) = LogFailedMove e))))"
proof -
  obtain n w1 where s: "saveAll srcPath dataList 0 w = (n, w1)" by (cases "saveAll srcPath dataList 0 w")
  from saveAll_frame[OF s] have fr:
    "\<forall>p. p \<notin> set (map (processedPath w srcPath) dataList) \<longrightarrow> files w1 p = files w p"
    "\<forall>p. files w p \<noteq> None \<longrightarrow> files w1 p \<noteq> None"
    "destDir w1 = destDir w" "today w1 = today w"
    by blast+
  have op: "originalsPath w1 srcPath = originalsPath w srcPath"
    using fr(3) by (simp add: originalsPath_def originalsDir_def)
  have a: "fst (saveAll srcPath dataList 0 w) = length (filter (\<lambda>r. r = None) (saveErrors srcPath dataList w))"
    using saveAll_count[of srcPath dataList 0 w] by simp
  have b: "fst (saveAll srcPath dataList 0 w) = 0 \<longrightarrow>
        saveAndArchive srcPath dataList w = logf (LogSkipArchive srcPath) (snd (saveAll srcPath dataList 0 w))
        \<and> (files w srcPath \<noteq> None \<longrightarrow> files (saveAndArchive srcPath dataList w) srcPath \<noteq> None)
        \<and> (\<forall>p. p \<notin> set (map (processedPath w srcPath) dataList) \<longrightarrow>
              files (saveAndArchive srcPath dataList w) p = files w p)"
    using fr(1,2) by (simp add: saveAndArchive_def s)
  have c: "0 < fst (saveAll srcPath dataList 0 w) \<longrightarrow>
        saveAndArchive srcPath dataList w = archiveOriginalFile srcPath (snd (saveAll srcPath dataList 0 w))
        \<and> (last (logs (saveAndArchive srcPath dataList w)) = LogArchived (originalsPath w srcPath)
             \<and> originalsPath w srcPath \<noteq> srcPath \<longrightarrow>
              files (saveAndArchive srcPath dataList w) srcPath = None
              \<and> files (saveAndArchive srcPath dataList w) (originalsPath w srcPath) \<noteq> None)
        \<and> (last (logs (saveAndArchive srcPath dataList w)) \<noteq> LogArchived (originalsPath w srcPath)
             \<and> files w srcPath \<noteq> None \<longrightarrow>
              files (saveAndArchive srcPath dataList w) srcPath \<noteq> None
              \<and> ((\<exists>e. last (logs (saveAndArchive srcPath dataList w)) = LogFailedOriginalsDir e)
                  \<or> (\<exists>e. last (logs (saveAndArchive srcPath dataList w)) = LogFailedMove e)))"
  proof
    assume "0 < fst (saveAll srcPath dataList 0 w)"
    then have e: "saveAndArchive srcPath dataList w = archiveOriginalFile srcPath w1"
      by (simp add: saveAndArchive_def s)
    have 1: "last (logs (archiveOriginalFile srcPath w1)) = LogArchived (originalsPath w srcPath)
             \<and> originalsPath w srcPath \<noteq> srcPath \<longrightarrow>
              files (archiveOriginalFile srcPath w1) srcPath = None
              \<and> files (archiveOriginalFile srcPath w1) (originalsPath w srcPath) \<noteq> None"
      using archiveOriginalFile_done[of srcPath w1] unfolding op by auto
    have 2: "last (logs (archiveOriginalFile srcPath w1)) \<noteq> LogArchived (originalsPath w srcPath)
             \<and> files w srcPath \<noteq> None \<longrightarrow>
              files (archiveOriginalFile srcPath w1) srcPath \<noteq> None
              \<and> ((\<exists>e. last (logs (archiveOriginalFile srcPath w1)) = LogFailedOriginalsDir e)
                  \<or> (\<exists>e. last (logs (archiveOriginalFile srcPath w1)) = LogFailedMove e))"
      using archiveOriginalFile_failed[of srcPath w1] fr(2) unfolding op by blast
    from 1 2 show "saveAndArchive srcPath dataList w = archiveOriginalFile srcPath (snd (saveAll srcPath dataList 0 w))
        \<and> (last (logs (saveAndArchive srcPath dataList w)) = LogArchived (originalsPath w srcPath)
             \<and> originalsPath w srcPath \<noteq> srcPath \<longrightarrow>
              files (saveAndArchive srcPath dataList w) srcPath = None
              \<and> files (saveAndArchive srcPath dataList w) (originalsPath w srcPath) \<noteq> None)
        \<and> (last (logs (saveAndArchive srcPath dataList w)) \<noteq> LogArchived (originalsPath w srcPath)
             \<and> files w srcPath \<noteq> None \<longrightarrow>
              files (saveAndArchive srcPath dataList w) srcPath \<noteq> None
              \<and> ((\<exists>e. last (logs (saveAndArchive srcPath dataList w)) = LogFailedOriginalsDir e)
                  \<or> (\<exists>e. last (logs (saveAndArchive srcPath dataList w)) = LogFailedMove e)))"
      unfolding e by (simp add: s)
  qed
  from a b c show ?thesis by (intro conjI)
qed

theorem saveAndArchive_gate_witness:
  "0 < fst (saveAll ''/watch/scan.pdf'' [ex_receipt] 0 ex_world)
   \<and> last (logs (saveAndArchive ''/watch/scan.pdf'' [ex_receipt] ex_world))
       = LogArchived (originalsPath ex_world ''/watch/scan.pdf'')
   \<and> originalsPath ex_world ''/watch/scan.pdf'' = ''/dest/originals/scan.pdf''
   \<and> files (saveAndArchive ''/watch/scan.pdf'' [ex_receipt] ex_world) ''/watch/scan.pdf'' = None
   \<and> files (saveAndArchive ''/watch/scan.pdf'' [ex_receipt] ex_world) ''/dest/originals/scan.pdf'' \<noteq> None
   \<and> fst (saveAll ''/watch/scan.pdf'' [ex_receipt] 0 ex_world_readonly_dest) = 0
   \<and> files ex_world_readonly_dest ''/watch/scan.pdf'' \<noteq> None
   \<and> files (saveAndArchive ''/watch/scan.pdf'' [ex_receipt] ex_world_readonly_dest) ''/watch/scan.pdf'' \<noteq> None
   \<and> ''/dest/originals/scan.pdf'' \<notin> set (map (processedPath ex_world_readonly_dest ''/watch/scan.pdf'') [ex_receipt])
   \<and> files (saveAndArchive ''/watch/scan.pdf'' [ex_receipt] ex_world_readonly_dest) ''/dest/originals/scan.pdf''
       = None
   \<and> 0 < fst (saveAll ''/watch/scan.pdf'' [ex_receipt] 0 ex_world_no_originals)
   \<and> last (logs (saveAndArchive ''/watch/scan.pdf'' [ex_receipt] ex_world_no_originals))
       \<noteq> LogArchived (originalsPath ex_world_no_originals ''/watch/scan.pdf'')
   \<and> files (saveAndArchive ''/watch/scan.pdf'' [ex_receipt] ex_world_no_originals) ''/watch/scan.pdf'' \<noteq> None"
proof -
  let ?S = "''/watch/scan.pdf''"
  \<comment> \<open>one record copied, the original archived\<close>
  have n1: "0 < fst (saveAll ?S [ex_receipt] 0 ex_world)"
    by (simp add: ex_worlds commit_eval)
  have o1: "originalsPath ex_world ?S = ''/dest/originals/scan.pdf''"
    by (simp add: ex_worlds commit_eval)
  have l1: "last (logs (saveAndArchive ?S [ex_receipt] ex_world)) = LogArchived (originalsPath ex_world ?S)"
    by (simp add: ex_worlds commit_eval)
  have d1: "originalsPath ex_world ?S \<noteq> ?S" by (simp add: o1)
  note t1 = saveAndArchive_gate[of ?S "[ex_receipt]" ex_world, THEN conjunct2, THEN conjunct2, rule_format, OF n1,
      THEN conjunct2, THEN conjunct1, rule_format, OF conjI[OF l1 d1]]
  from t1 have c1: "files (saveAndArchive ?S [ex_receipt] ex_world) ?S = None"
    "files (saveAndArchive ?S [ex_receipt] ex_world) ''/dest/originals/scan.pdf'' \<noteq> None"
    unfolding o1 by blast+
  \<comment> \<open>no record copied, the original untouched\<close>
  have n2: "fst (saveAll ?S [ex_receipt] 0 ex_world_readonly_dest) = 0"
    by (simp add: ex_worlds commit_eval)
  have s2: "files ex_world_readonly_dest ?S \<noteq> None" "files ex_world_readonly_dest ''/dest/originals/scan.pdf'' = None"
    by (simp_all add: ex_worlds)
  have p2: "''/dest/originals/scan.pdf'' \<notin> set (map (processedPath ex_world_readonly_dest ?S) [ex_receipt])"
    by (simp add: ex_worlds commit_eval)
  note t2 = saveAndArchive_gate[of ?S "[ex_receipt]" ex_world_readonly_dest, THEN conjunct2, THEN conjunct1,
      rule_format, OF n2, THEN conjunct2]
  from t2 s2(1) have c2a: "files (saveAndArchive ?S [ex_receipt] ex_world_readonly_dest) ?S \<noteq> None"
    by blast
  from t2[THEN conjunct2, rule_format, OF p2] s2(2)
  have c2b: "files (saveAndArchive ?S [ex_receipt] ex_world_readonly_dest) ''/dest/originals/scan.pdf'' = None"
    by simp
  \<comment> \<open>one record copied, the originals directory cannot be made\<close>
  have n3: "0 < fst (saveAll ?S [ex_receipt] 0 ex_world_no_originals)"
    by (simp add: ex_worlds commit_eval)
  have l3: "last (logs (saveAndArchive ?S [ex_receipt] ex_world_no_originals))
       \<noteq> LogArchived (originalsPath ex_world_no_originals ?S)"
    by (simp add: ex_worlds commit_eval)
  have s3: "files ex_world_no_originals ?S \<noteq> None" by (simp add: ex_worlds)
  note t3 = saveAndArchive_gate[of ?S "[ex_receipt]" ex_world_no_originals, THEN conjunct2, THEN conjunct2,
      rule_format, OF n3, THEN conjunct2, THEN conjunct2, rule_format, OF conjI[OF l3 s3], THEN conjunct1]
  from n1 l1 o1 c1 n2 s2(1) c2a p2 c2b n3 l3 t3 show ?thesis by (intro conjI)
qed

subsection \<open>The event loop\<close>

lemma relevant_mask:
  "(Has e Write \<or> Has e Create \<or> Has e Rename \<or> Has e Chmod)
   \<longleftrightarrow> Event_Op e AND (Create OR Write OR Rename OR Chmod) \<noteq> 0"
  by (simp add: Has_def bit.conj_disj_distrib or_eq_0_iff) blast

lemma onEvent_relevant_new:
  assumes "Has e Write \<or> Has e Create \<or> Has e Rename \<or> Has e Chmod" "activeFiles s (Event_Name e) = None"
  shows "onEvent e s = s\<lparr>activeFiles := (activeFiles s)(Event_Name e \<mapsto> True), running := running s @ [Event_Name e]\<rparr>"
  using assms by (simp add: onEvent_def LoadOrStore_def)

lemma onEvent_relevant_loaded:
  assumes "Has e Write \<or> Has e Create \<or> Has e Rename \<or> Has e Chmod" "activeFiles s (Event_Name e) \<noteq> None"
  shows "onEvent e s = s"
  using assms by (auto simp: onEvent_def LoadOrStore_def)

lemma onEvent_other:
  assumes "\<not> (Has e Write \<or> Has e Create \<or> Has e Rename \<or> Has e Chmod)"
  shows "onEvent e s = s\<lparr>ignoredEvents := ignoredEvents s @ [e]\<rparr>"
  using assms by (simp add: onEvent_def)

text \<open>
  C8. One iteration of the event loop registers the path and starts a task exactly
  when the kind of the event includes create, write, rename or chmod and the path is
  not in flight: the task list grows by the path in that case and in no other. A
  relevant event leaves its path registered; a relevant event for a path already in
  flight changes nothing; an event of another kind (a removal, or no kind at all)
  starts no task and is only logged as ignored.
\<close>

theorem onEvent_dispatch:
  "running (onEvent e s) =
     (if (Has e Create \<or> Has e Write \<or> Has e Rename \<or> Has e Chmod) \<and> activeFiles s (Event_Name e) = None
      then running s @ [Event_Name e] else running s)
   \<and> ((Has e Create \<or> Has e Write \<or> Has e Rename \<or> Has e Chmod)
        \<longleftrightarrow> Event_Op e AND (Create OR Write OR Rename OR Chmod) \<noteq> 0)
   \<and> ((Has e Create \<or> Has e Write \<or> Has e Rename \<or> Has e Chmod) \<longrightarrow>
        activeFiles (onEvent e s) (Event_Name e) \<noteq> None)
   \<and> ((Has e Create \<or> Has e Write \<or> Has e Rename \<or> Has e Chmod) \<and> activeFiles s (Event_Name e) \<noteq> None \<longrightarrow>
        onEvent e s = s)
   \<and> (\<not> (Has e Create \<or> Has e Write \<or> Has e Rename \<or> Has e Chmod) \<longrightarrow>
        onEvent e s = s\<lparr>ignoredEvents := ignoredEvents s @ [e]\<rparr>)
   \<and> (Event_Op e = Remove \<or> Event_Op e = 0 \<longrightarrow>
        \<not> (Has e Create \<or> Has e Write \<or> Has e Rename \<or> Has e Chmod))"
proof -
  let ?rel = "Has e Create \<or> Has e Write \<or> Has e Rename \<or> Has e Chmod"
  have eq: "?rel \<longleftrightarrow> (Has e Write \<or> Has e Create \<or> Has e Rename \<or> Has e Chmod)" by blast
  have a: "running (onEvent e s) =
     (if ?rel \<and> activeFiles s (Event_Name e) = None then running s @ [Event_Name e] else running s)"
  proof (cases ?rel)
    case True
    then have r: "Has e Write \<or> Has e Create \<or> Has e Rename \<or> Has e Chmod" by blast
    show ?thesis
    proof (cases "activeFiles s (Event_Name e)")
      case None
      with True onEvent_relevant_new[OF r None] show ?thesis by simp
    next
      case (Some b)
      then have "activeFiles s (Event_Name e) \<noteq> None" by simp
      from onEvent_relevant_loaded[OF r this] Some show ?thesis by simp
    qed
  next
    case False
    then have "\<not> (Has e Write \<or> Has e Create \<or> Has e Rename \<or> Has e Chmod)" by blast
    from onEvent_other[OF this] False show ?thesis by simp
  qed
  have b: "?rel \<longleftrightarrow> Event_Op e AND (Create OR Write OR Rename OR Chmod) \<noteq> 0"
    using relevant_mask[of e] by blast
  have c: "?rel \<longrightarrow> activeFiles (onEvent e s) (Event_Name e) \<noteq> None"
    by (auto simp: onEvent_def LoadOrStore_def split: option.splits)
  have d: "?rel \<and> activeFiles s (Event_Name e) \<noteq> None \<longrightarrow> onEvent e s = s"
    using onEvent_relevant_loaded[of e s] by blast
  have f: "\<not> ?rel \<longrightarrow> onEvent e s = s\<lparr>ignoredEvents := ignoredEvents s @ [e]\<rparr>"
    using onEvent_other[of e s] by blast
  have g: "Event_Op e = Remove \<or> Event_Op e = 0 \<longrightarrow> \<not> ?rel"
    by (auto simp: Has_def Remove_def Create_def Write_def Rename_def Chmod_def)
  from a b c d f g show ?thesis by (intro conjI)
qed

lemma ev_simps:
  "Has ex_create Create" "\<not> Has ex_remove Create" "\<not> Has ex_remove Write" "\<not> Has ex_remove Rename" "\<not> Has ex_remove Chmod"
  "Has ex_write_chmod Chmod" "Has ex_rename Rename"
  "Event_Name ex_create = ''/watch/scan.pdf''" "Event_Name ex_remove = ''/watch/scan.pdf''"
  "Event_Name ex_write_chmod = ''/watch/scan.pdf''" "Event_Name ex_rename = ''/watch/scan.pdf''"
  by (simp_all add: Has_def ex_create_def ex_remove_def ex_write_chmod_def ex_rename_def Remove_def Create_def Write_def Rename_def Chmod_def)

theorem onEvent_dispatch_witness:
  "Has ex_create Create
   \<and> running (onEvent ex_create initial) = [''/watch/scan.pdf'']
   \<and> activeFiles (onEvent ex_create initial) ''/watch/scan.pdf'' \<noteq> None
   \<and> Has ex_write_chmod Chmod
   \<and> onEvent ex_write_chmod (onEvent ex_create initial) = onEvent ex_create initial
   \<and> Event_Op ex_remove = Remove
   \<and> onEvent ex_remove initial = initial\<lparr>ignoredEvents := [ex_remove]\<rparr>
   \<and> running (onEvent ex_remove initial) = []"
proof -
  let ?s1 = "onEvent ex_create initial"
  have r1: "Has ex_create Create \<or> Has ex_create Write \<or> Has ex_create Rename \<or> Has ex_create Chmod"
    using ev_simps(1) by blast
  have i: "activeFiles initial (Event_Name ex_create) = None" "running initial = []" "ignoredEvents initial = []"
    by (simp_all add: initial_def)
  note t1 = onEvent_dispatch[of ex_create initial]
  from t1 r1 i have a: "running ?s1 = [''/watch/scan.pdf'']" by (simp add: ev_simps)
  from t1[THEN conjunct2, THEN conjunct2, THEN conjunct1, rule_format, OF r1]
  have b: "activeFiles ?s1 ''/watch/scan.pdf'' \<noteq> None" by (simp add: ev_simps)
  have r2: "Has ex_write_chmod Create \<or> Has ex_write_chmod Write \<or> Has ex_write_chmod Rename \<or> Has ex_write_chmod Chmod"
    using ev_simps(6) by blast
  from b have b': "activeFiles ?s1 (Event_Name ex_write_chmod) \<noteq> None" by (simp add: ev_simps)
  from onEvent_dispatch[of ex_write_chmod ?s1, THEN conjunct2, THEN conjunct2, THEN conjunct2, THEN conjunct1,
      rule_format, OF conjI[OF r2 b']]
  have c: "onEvent ex_write_chmod ?s1 = ?s1" .
  have o: "Event_Op ex_remove = Remove" by (simp add: ex_remove_def)
  then have o': "Event_Op ex_remove = Remove \<or> Event_Op ex_remove = 0" by blast
  note t3 = onEvent_dispatch[of ex_remove initial]
  from t3[THEN conjunct2, THEN conjunct2, THEN conjunct2, THEN conjunct2, THEN conjunct2, rule_format, OF o']
  have n: "\<not> (Has ex_remove Create \<or> Has ex_remove Write \<or> Has ex_remove Rename \<or> Has ex_remove Chmod)" .
  from t3[THEN conjunct2, THEN conjunct2, THEN conjunct2, THEN conjunct2, THEN conjunct1, rule_format, OF n] i
  have d: "onEvent ex_remove initial = initial\<lparr>ignoredEvents := [ex_remove]\<rparr>" by simp
  then have e: "running (onEvent ex_remove initial) = []" using i by simp
  from ev_simps(1) a b ev_simps(6) c o d e show ?thesis by (intro conjI)
qed

subsection \<open>The Stability Detector\<close>

lemma thr_pos: "0 < stabilityThreshold" by (simp add: stabilityThreshold_def second_def)

lemma waitLoop_stable:
  "waitLoop env k ls ss = Stable \<Longrightarrow>
     \<exists>n sz. k \<le> n \<and> 0 < sz \<and> timeAt env n \<le> maxWaitTime \<and>
       ((\<forall>i. k \<le> i \<and> i \<le> n \<longrightarrow> stat env i = StatSize sz) \<and> int sz = ls
          \<and> stabilityThreshold \<le> timeAt env n - ss
        \<or> (\<exists>j. k \<le> j \<and> j \<le> n \<and> (\<forall>i. j \<le> i \<and> i \<le> n \<longrightarrow> stat env i = StatSize sz)
              \<and> stabilityThreshold \<le> timeAt env n - timeAt env j))"
proof (induction env k ls ss rule: waitLoop.induct)
  case (1 env k ls ss)
  note st = "1.prems"
  have tk: "timeAt env k \<le> maxWaitTime"
    using st by (subst (asm) waitLoop.simps) (auto split: if_splits)
  then have not: "\<not> maxWaitTime < timeAt env k" by simp
  from st obtain c where c: "stat env k = StatSize c"
    by (subst (asm) waitLoop.simps) (auto split: if_splits stat_result.splits)
  show ?case
  proof (cases "int c \<noteq> ls")
    case True
    with st not c have r: "waitLoop env (Suc k) (int c) (timeAt env k) = Stable"
      by (subst (asm) waitLoop.simps) simp
    from "1.IH"(1)[OF not c True r] obtain n sz where n: "Suc k \<le> n" "0 < sz" "timeAt env n \<le> maxWaitTime"
      and d: "((\<forall>i. Suc k \<le> i \<and> i \<le> n \<longrightarrow> stat env i = StatSize sz) \<and> int sz = int c
          \<and> stabilityThreshold \<le> timeAt env n - timeAt env k
        \<or> (\<exists>j. Suc k \<le> j \<and> j \<le> n \<and> (\<forall>i. j \<le> i \<and> i \<le> n \<longrightarrow> stat env i = StatSize sz)
              \<and> stabilityThreshold \<le> timeAt env n - timeAt env j))"
      by blast
    from d have "\<exists>j. k \<le> j \<and> j \<le> n \<and> (\<forall>i. j \<le> i \<and> i \<le> n \<longrightarrow> stat env i = StatSize sz)
              \<and> stabilityThreshold \<le> timeAt env n - timeAt env j"
    proof
      assume a: "(\<forall>i. Suc k \<le> i \<and> i \<le> n \<longrightarrow> stat env i = StatSize sz) \<and> int sz = int c
          \<and> stabilityThreshold \<le> timeAt env n - timeAt env k"
      then have "sz = c" by simp
      have "\<forall>i. k \<le> i \<and> i \<le> n \<longrightarrow> stat env i = StatSize sz"
      proof (intro allI impI)
        fix i assume "k \<le> i \<and> i \<le> n"
        then consider "i = k" | "Suc k \<le> i \<and> i \<le> n" by linarith
        then show "stat env i = StatSize sz" using c \<open>sz = c\<close> a by cases auto
      qed
      with a n(1) show ?thesis by (intro exI[of _ k]) simp
    next
      assume "\<exists>j. Suc k \<le> j \<and> j \<le> n \<and> (\<forall>i. j \<le> i \<and> i \<le> n \<longrightarrow> stat env i = StatSize sz)
              \<and> stabilityThreshold \<le> timeAt env n - timeAt env j"
      then obtain j where "Suc k \<le> j" "j \<le> n" "\<forall>i. j \<le> i \<and> i \<le> n \<longrightarrow> stat env i = StatSize sz"
        "stabilityThreshold \<le> timeAt env n - timeAt env j" by blast
      then show ?thesis by (intro exI[of _ j]) simp
    qed
    with n show ?thesis by (intro exI[of _ n] exI[of _ sz]) auto
  next
    case False
    then have eq: "int c = ls" by simp
    show ?thesis
    proof (cases "timeAt env k - ss \<ge> stabilityThreshold \<and> c > 0")
      case True
      with c eq tk show ?thesis by (intro exI[of _ k] exI[of _ c] conjI disjI1) auto
    next
      case nst: False
      with st not c False have r: "waitLoop env (Suc k) ls ss = Stable"
        by (subst (asm) waitLoop.simps) (simp split: if_splits)
      from "1.IH"(2)[OF not c False nst r] obtain n sz where n: "Suc k \<le> n" "0 < sz" "timeAt env n \<le> maxWaitTime"
        and d: "((\<forall>i. Suc k \<le> i \<and> i \<le> n \<longrightarrow> stat env i = StatSize sz) \<and> int sz = ls
            \<and> stabilityThreshold \<le> timeAt env n - ss
          \<or> (\<exists>j. Suc k \<le> j \<and> j \<le> n \<and> (\<forall>i. j \<le> i \<and> i \<le> n \<longrightarrow> stat env i = StatSize sz)
                \<and> stabilityThreshold \<le> timeAt env n - timeAt env j))"
        by blast
      from d have "((\<forall>i. k \<le> i \<and> i \<le> n \<longrightarrow> stat env i = StatSize sz) \<and> int sz = ls
            \<and> stabilityThreshold \<le> timeAt env n - ss
          \<or> (\<exists>j. k \<le> j \<and> j \<le> n \<and> (\<forall>i. j \<le> i \<and> i \<le> n \<longrightarrow> stat env i = StatSize sz)
                \<and> stabilityThreshold \<le> timeAt env n - timeAt env j))"
      proof
        assume a: "(\<forall>i. Suc k \<le> i \<and> i \<le> n \<longrightarrow> stat env i = StatSize sz) \<and> int sz = ls
            \<and> stabilityThreshold \<le> timeAt env n - ss"
        with eq have "sz = c" by simp
        have "\<forall>i. k \<le> i \<and> i \<le> n \<longrightarrow> stat env i = StatSize sz"
        proof (intro allI impI)
          fix i assume "k \<le> i \<and> i \<le> n"
          then consider "i = k" | "Suc k \<le> i \<and> i \<le> n" by linarith
          then show "stat env i = StatSize sz" using c \<open>sz = c\<close> a by cases auto
        qed
        with a show ?thesis by simp
      next
        assume "\<exists>j. Suc k \<le> j \<and> j \<le> n \<and> (\<forall>i. j \<le> i \<and> i \<le> n \<longrightarrow> stat env i = StatSize sz)
                \<and> stabilityThreshold \<le> timeAt env n - timeAt env j"
        then obtain j where "Suc k \<le> j" "j \<le> n" "\<forall>i. j \<le> i \<and> i \<le> n \<longrightarrow> stat env i = StatSize sz"
          "stabilityThreshold \<le> timeAt env n - timeAt env j" by blast
        then have "\<exists>j. k \<le> j \<and> j \<le> n \<and> (\<forall>i. j \<le> i \<and> i \<le> n \<longrightarrow> stat env i = StatSize sz)
                \<and> stabilityThreshold \<le> timeAt env n - timeAt env j"
          by (intro exI[of _ j]) simp
        then show ?thesis by blast
      qed
      with n show ?thesis by (intro exI[of _ n] exI[of _ sz]) auto
    qed
  qed
qed

lemma waitForStableFile_stable:
  assumes "waitForStableFile env = Stable"
  shows "\<exists>j n sz. j \<le> n \<and> 0 < sz \<and> (\<forall>i. j \<le> i \<and> i \<le> n \<longrightarrow> stat env i = StatSize sz)
           \<and> timeAt env j + stabilityThreshold \<le> timeAt env n \<and> timeAt env n \<le> maxWaitTime"
proof -
  from waitLoop_stable[OF assms[unfolded waitForStableFile_def]]
  obtain n sz j where "0 < sz" "timeAt env n \<le> maxWaitTime" "j \<le> n"
    "\<forall>i. j \<le> i \<and> i \<le> n \<longrightarrow> stat env i = StatSize sz" "stabilityThreshold \<le> timeAt env n - timeAt env j"
    by auto
  moreover from this thr_pos have "timeAt env j + stabilityThreshold \<le> timeAt env n" by linarith
  ultimately show ?thesis by blast
qed

lemma waitLoop_zero:
  "\<forall>i. stat env i = StatSize 0 \<Longrightarrow> waitLoop env k ls ss = Timeout"
proof (induction env k ls ss rule: waitLoop.induct)
  case (1 env k ls ss)
  show ?case
  proof (cases "maxWaitTime < timeAt env k")
    case True
    then show ?thesis by (subst waitLoop.simps) simp
  next
    case False
    have c: "stat env k = StatSize 0" using "1.prems" by simp
    show ?thesis
    proof (cases "int 0 \<noteq> ls")
      case True
      from "1.IH"(1)[OF False c True "1.prems"] False c True show ?thesis
        by (subst waitLoop.simps) simp
    next
      case eq: False
      have n: "\<not> (stabilityThreshold \<le> timeAt env k - ss \<and> (0::nat) < 0)" by simp
      from "1.IH"(2)[OF False c eq n "1.prems"] False c eq show ?thesis
        by (subst waitLoop.simps) simp
    qed
  qed
qed

lemma waitLoop_timeout_now: "maxWaitTime < timeAt env k \<Longrightarrow> waitLoop env k ls ss = Timeout"
  by (subst waitLoop.simps) simp

lemma waitLoop_gone_now:
  "timeAt env k \<le> maxWaitTime \<Longrightarrow> stat env k = StatNotExist \<Longrightarrow> waitLoop env k ls ss = Disappeared"
  by (subst waitLoop.simps) simp

lemma waitLoop_timeout:
  "waitLoop env k ls ss = Timeout \<Longrightarrow>
     \<exists>n. k \<le> n \<and> maxWaitTime < timeAt env n
       \<and> (\<forall>i. k \<le> i \<and> i < n \<longrightarrow> timeAt env i \<le> maxWaitTime \<and> (\<exists>sz. stat env i = StatSize sz))"
proof (induction env k ls ss rule: waitLoop.induct)
  case (1 env k ls ss)
  show ?case
  proof (cases "maxWaitTime < timeAt env k")
    case True
    then show ?thesis by (intro exI[of _ k]) auto
  next
    case False
    with "1.prems" obtain c where c: "stat env k = StatSize c"
      by (subst (asm) waitLoop.simps) (auto split: stat_result.splits)
    have "\<exists>ls' ss'. waitLoop env (Suc k) ls' ss' = Timeout
        \<and> (\<exists>n. Suc k \<le> n \<and> maxWaitTime < timeAt env n
       \<and> (\<forall>i. Suc k \<le> i \<and> i < n \<longrightarrow> timeAt env i \<le> maxWaitTime \<and> (\<exists>sz. stat env i = StatSize sz)))"
    proof (cases "int c \<noteq> ls")
      case True
      with "1.prems" False c have r: "waitLoop env (Suc k) (int c) (timeAt env k) = Timeout"
        by (subst (asm) waitLoop.simps) simp
      from "1.IH"(1)[OF False c True r] r show ?thesis by blast
    next
      case eq: False
      with "1.prems" False c have n: "\<not> (stabilityThreshold \<le> timeAt env k - ss \<and> 0 < c)"
        and r: "waitLoop env (Suc k) ls ss = Timeout"
        by (subst (asm) waitLoop.simps, simp split: if_splits)+
      from "1.IH"(2)[OF False c eq n r] r show ?thesis by blast
    qed
    then obtain n where n: "Suc k \<le> n" "maxWaitTime < timeAt env n"
      "\<forall>i. Suc k \<le> i \<and> i < n \<longrightarrow> timeAt env i \<le> maxWaitTime \<and> (\<exists>sz. stat env i = StatSize sz)"
      by blast
    have "\<forall>i. k \<le> i \<and> i < n \<longrightarrow> timeAt env i \<le> maxWaitTime \<and> (\<exists>sz. stat env i = StatSize sz)"
    proof (intro allI impI)
      fix i assume "k \<le> i \<and> i < n"
      then consider "i = k" | "Suc k \<le> i \<and> i < n" by linarith
      then show "timeAt env i \<le> maxWaitTime \<and> (\<exists>sz. stat env i = StatSize sz)"
        using False c n(3) by cases auto
    qed
    with n show ?thesis by (intro exI[of _ n]) auto
  qed
qed

lemma waitLoop_disappeared:
  "waitLoop env k ls ss = Disappeared \<Longrightarrow>
     \<exists>n. k \<le> n \<and> stat env n = StatNotExist \<and> timeAt env n \<le> maxWaitTime
       \<and> (\<forall>i. k \<le> i \<and> i < n \<longrightarrow> (\<exists>sz. stat env i = StatSize sz))"
proof (induction env k ls ss rule: waitLoop.induct)
  case (1 env k ls ss)
  from "1.prems" have tk: "\<not> maxWaitTime < timeAt env k"
    by (subst (asm) waitLoop.simps) (auto split: if_splits)
  show ?case
  proof (cases "stat env k")
    case StatNotExist
    with tk show ?thesis by (intro exI[of _ k]) auto
  next
    case (StatError e)
    with "1.prems" tk show ?thesis by (subst (asm) waitLoop.simps) simp
  next
    case (StatSize c)
    have "\<exists>n. Suc k \<le> n \<and> stat env n = StatNotExist \<and> timeAt env n \<le> maxWaitTime
       \<and> (\<forall>i. Suc k \<le> i \<and> i < n \<longrightarrow> (\<exists>sz. stat env i = StatSize sz))"
    proof (cases "int c \<noteq> ls")
      case True
      with "1.prems" tk StatSize have r: "waitLoop env (Suc k) (int c) (timeAt env k) = Disappeared"
        by (subst (asm) waitLoop.simps) simp
      from "1.IH"(1)[OF tk StatSize True r] show ?thesis .
    next
      case eq: False
      with "1.prems" tk StatSize have n: "\<not> (stabilityThreshold \<le> timeAt env k - ss \<and> 0 < c)"
        and r: "waitLoop env (Suc k) ls ss = Disappeared"
        by (subst (asm) waitLoop.simps, simp split: if_splits)+
      from "1.IH"(2)[OF tk StatSize eq n r] show ?thesis .
    qed
    then obtain n where n: "Suc k \<le> n" "stat env n = StatNotExist" "timeAt env n \<le> maxWaitTime"
      "\<forall>i. Suc k \<le> i \<and> i < n \<longrightarrow> (\<exists>sz. stat env i = StatSize sz)"
      by blast
    have "\<forall>i. k \<le> i \<and> i < n \<longrightarrow> (\<exists>sz. stat env i = StatSize sz)"
    proof (intro allI impI)
      fix i assume "k \<le> i \<and> i < n"
      then consider "i = k" | "Suc k \<le> i \<and> i < n" by linarith
      then show "\<exists>sz. stat env i = StatSize sz" using StatSize n(4) by cases auto
    qed
    with n show ?thesis by (intro exI[of _ n]) auto
  qed
qed

lemmas wait_eval = waitForStableFile_def waitLoop.simps second_def stabilityThreshold_def maxWaitTime_def

text \<open>
  C3. \<open>waitForStableFile\<close> returns success only when some size greater than zero was
  observed at every poll of a run of polls that spans at least the stability threshold
  of ten seconds, polls being one second (and the jitter) apart, and this within the
  maximum wait of five minutes; any other size in between restarts the run. A file
  that stays at size zero ends in the timeout. Every iteration that starts after more
  than five minutes returns the timeout, and a timeout is returned only then, after
  polls that all found the file. Every iteration within the five minutes that finds
  the file missing returns the not-found error, and that error is returned only then.
\<close>

theorem waitForStableFile_correct:
  "(waitForStableFile env = Stable \<longrightarrow>
      (\<exists>j n sz. j \<le> n \<and> 0 < sz \<and> (\<forall>i. j \<le> i \<and> i \<le> n \<longrightarrow> stat env i = StatSize sz)
         \<and> timeAt env j + stabilityThreshold \<le> timeAt env n \<and> timeAt env n \<le> maxWaitTime))
   \<and> (\<forall>k. timeAt env (Suc k) = timeAt env k + second + jitter env k)
   \<and> second = 1000000000 \<and> stabilityThreshold = 10 * second \<and> maxWaitTime = 300 * second
   \<and> ((\<forall>i. stat env i = StatSize 0) \<longrightarrow> waitForStableFile env = Timeout)
   \<and> (\<forall>k lastSize stableSince. maxWaitTime < timeAt env k \<longrightarrow> waitLoop env k lastSize stableSince = Timeout)
   \<and> (waitForStableFile env = Timeout \<longrightarrow>
        (\<exists>n. maxWaitTime < timeAt env n
           \<and> (\<forall>i. i < n \<longrightarrow> timeAt env i \<le> maxWaitTime \<and> (\<exists>sz. stat env i = StatSize sz))))
   \<and> (\<forall>k lastSize stableSince. timeAt env k \<le> maxWaitTime \<and> stat env k = StatNotExist \<longrightarrow>
        waitLoop env k lastSize stableSince = Disappeared)
   \<and> (waitForStableFile env = Disappeared \<longrightarrow>
        (\<exists>n. stat env n = StatNotExist \<and> timeAt env n \<le> maxWaitTime
           \<and> (\<forall>i. i < n \<longrightarrow> (\<exists>sz. stat env i = StatSize sz))))"
proof -
  have a: "waitForStableFile env = Stable \<longrightarrow>
      (\<exists>j n sz. j \<le> n \<and> 0 < sz \<and> (\<forall>i. j \<le> i \<and> i \<le> n \<longrightarrow> stat env i = StatSize sz)
         \<and> timeAt env j + stabilityThreshold \<le> timeAt env n \<and> timeAt env n \<le> maxWaitTime)"
    using waitForStableFile_stable by blast
  have b: "\<forall>k. timeAt env (Suc k) = timeAt env k + second + jitter env k" by simp
  have c: "second = 1000000000" "stabilityThreshold = 10 * second" "maxWaitTime = 300 * second"
    by (simp_all add: second_def stabilityThreshold_def maxWaitTime_def)
  have d: "(\<forall>i. stat env i = StatSize 0) \<longrightarrow> waitForStableFile env = Timeout"
    using waitLoop_zero unfolding waitForStableFile_def by blast
  have e: "\<forall>k lastSize stableSince. maxWaitTime < timeAt env k \<longrightarrow> waitLoop env k lastSize stableSince = Timeout"
    using waitLoop_timeout_now by blast
  have f: "waitForStableFile env = Timeout \<longrightarrow>
        (\<exists>n. maxWaitTime < timeAt env n
           \<and> (\<forall>i. i < n \<longrightarrow> timeAt env i \<le> maxWaitTime \<and> (\<exists>sz. stat env i = StatSize sz)))"
  proof
    assume "waitForStableFile env = Timeout"
    from waitLoop_timeout[OF this[unfolded waitForStableFile_def]]
    show "\<exists>n. maxWaitTime < timeAt env n
           \<and> (\<forall>i. i < n \<longrightarrow> timeAt env i \<le> maxWaitTime \<and> (\<exists>sz. stat env i = StatSize sz))"
      by auto
  qed
  have g: "\<forall>k lastSize stableSince. timeAt env k \<le> maxWaitTime \<and> stat env k = StatNotExist \<longrightarrow>
        waitLoop env k lastSize stableSince = Disappeared"
    using waitLoop_gone_now by blast
  have h: "waitForStableFile env = Disappeared \<longrightarrow>
        (\<exists>n. stat env n = StatNotExist \<and> timeAt env n \<le> maxWaitTime
           \<and> (\<forall>i. i < n \<longrightarrow> (\<exists>sz. stat env i = StatSize sz)))"
  proof
    assume "waitForStableFile env = Disappeared"
    from waitLoop_disappeared[OF this[unfolded waitForStableFile_def]]
    show "\<exists>n. stat env n = StatNotExist \<and> timeAt env n \<le> maxWaitTime
           \<and> (\<forall>i. i < n \<longrightarrow> (\<exists>sz. stat env i = StatSize sz))"
      by auto
  qed
  from a b c d e f g h show ?thesis by (intro conjI)
qed

lemma timeAt_no_jitter: "\<forall>i. jitter env i = 0 \<Longrightarrow> timeAt env k = k * second"
  by (induction k) simp_all

lemma ex_jitter:
  "\<forall>i. jitter ex_wait_steady i = 0" "\<forall>i. jitter ex_wait_growing i = 0"
  "\<forall>i. jitter ex_wait_empty i = 0" "\<forall>i. jitter ex_wait_gone i = 0"
  by (simp_all add: ex_wait_steady_def ex_wait_growing_def ex_wait_empty_def ex_wait_gone_def)

theorem waitForStableFile_correct_witness:
  "waitForStableFile ex_wait_steady = Stable
   \<and> (\<exists>j n sz. j \<le> n \<and> 0 < sz \<and> (\<forall>i. j \<le> i \<and> i \<le> n \<longrightarrow> stat ex_wait_steady i = StatSize sz)
         \<and> timeAt ex_wait_steady j + stabilityThreshold \<le> timeAt ex_wait_steady n)
   \<and> waitForStableFile ex_wait_growing = Stable
   \<and> timeAt ex_wait_growing 14 - timeAt ex_wait_growing 5 < stabilityThreshold
   \<and> waitLoop ex_wait_growing 15 500 (timeAt ex_wait_growing 5) = Stable
   \<and> stat ex_wait_empty 0 = StatSize 0
   \<and> waitForStableFile ex_wait_empty = Timeout
   \<and> maxWaitTime < timeAt ex_wait_empty 301
   \<and> waitLoop ex_wait_empty 301 0 0 = Timeout
   \<and> waitForStableFile ex_wait_gone = Disappeared
   \<and> timeAt ex_wait_gone 3 \<le> maxWaitTime \<and> stat ex_wait_gone 3 = StatNotExist
   \<and> waitLoop ex_wait_gone 3 10 0 = Disappeared"
proof -
  have s1: "waitForStableFile ex_wait_steady = Stable"
    by (simp add: wait_eval ex_wait_steady_def)
  from waitForStableFile_correct[of ex_wait_steady, THEN conjunct1, rule_format, OF s1]
  have s2: "\<exists>j n sz. j \<le> n \<and> 0 < sz \<and> (\<forall>i. j \<le> i \<and> i \<le> n \<longrightarrow> stat ex_wait_steady i = StatSize sz)
         \<and> timeAt ex_wait_steady j + stabilityThreshold \<le> timeAt ex_wait_steady n"
    by blast
  have g1: "waitForStableFile ex_wait_growing = Stable"
    by (simp add: wait_eval ex_wait_growing_def)
  have tg: "timeAt ex_wait_growing k = k * second" for k
    using timeAt_no_jitter[OF ex_jitter(2)] .
  have g2: "timeAt ex_wait_growing 14 - timeAt ex_wait_growing 5 < stabilityThreshold"
    by (simp add: tg second_def stabilityThreshold_def)
  have sg: "stat ex_wait_growing 15 = StatSize 500" by (simp add: ex_wait_growing_def)
  have g3: "waitLoop ex_wait_growing 15 500 (timeAt ex_wait_growing 5) = Stable"
    by (subst waitLoop.simps) (simp add: tg sg second_def stabilityThreshold_def maxWaitTime_def)
  have z1: "stat ex_wait_empty i = StatSize 0" for i by (simp add: ex_wait_empty_def)
  note t = waitForStableFile_correct[of ex_wait_empty, THEN conjunct2, THEN conjunct2, THEN conjunct2,
      THEN conjunct2, THEN conjunct2]
  from t[THEN conjunct1, rule_format, OF z1] have z2: "waitForStableFile ex_wait_empty = Timeout" .
  have z3: "maxWaitTime < timeAt ex_wait_empty 301"
    by (simp add: timeAt_no_jitter[OF ex_jitter(3)] maxWaitTime_def second_def)
  from t[THEN conjunct2, THEN conjunct1, rule_format, OF z3]
  have z4: "waitLoop ex_wait_empty 301 0 0 = Timeout" .
  have d1: "waitForStableFile ex_wait_gone = Disappeared"
    by (simp add: wait_eval ex_wait_gone_def)
  have d2: "timeAt ex_wait_gone 3 \<le> maxWaitTime" "stat ex_wait_gone 3 = StatNotExist"
    by (simp add: timeAt_no_jitter[OF ex_jitter(4)] maxWaitTime_def second_def)
       (simp add: ex_wait_gone_def)
  from waitForStableFile_correct[of ex_wait_gone, THEN conjunct2, THEN conjunct2, THEN conjunct2,
      THEN conjunct2, THEN conjunct2, THEN conjunct2, THEN conjunct2, THEN conjunct2, THEN conjunct1, rule_format,
      OF conjI[OF d2]]
  have d3: "waitLoop ex_wait_gone 3 10 0 = Disappeared" .
  from s1 s2 g1 g2 g3 z1 z2 z3 z4 d1 d2 d3 show ?thesis by (intro conjI)
qed

subsection \<open>The Analysis Client\<close>















lemmas cloud_eval = analyzeReceipt_def analyzeUploaded_def UploadFile_def GetFile_def GenerateContent_def
  DeleteFile_def responseText_def os_Open_def called_def ex_cloud_def ex_cloud_failed_def ex_cloud_empty_def
  ex_cloud_null_def ex_file_def ex_world_def

lemma ex_parse: "parseGeminiResponse ex_json = Inr [\<lparr>Date = ''2024-01-05'', Vendor = ''ACME'', Category = ''Grocery'', Amount = 1200\<rparr>]"
  by code_simp








subsection \<open>The Response Parser\<close>

lemma parse_ex_json:
  "Unmarshal_ReceiptData ex_json
     = Inr \<lparr>Date = ''2024-01-05'', Vendor = ''ACME'', Category = ''Grocery'', Amount = 1200\<rparr>"
  by code_simp

lemma parse_ex_array:
  "Unmarshal_ReceiptData ex_json_array = Inl UnmarshalTypeError"
  "Unmarshal_ReceiptData_list ex_json_array
     = Inr [\<lparr>Date = ''2024-01-05'', Vendor = ''ACME'', Category = ''Grocery'', Amount = 1200\<rparr>,
            \<lparr>Date = ''2024-01-06'', Vendor = ''A B'', Category = ''Tax'', Amount = 80\<rparr>]"
  by code_simp+

lemma parse_not_json:
  "Unmarshal_ReceiptData ''not json'' = Inl SyntaxError"
  "Unmarshal_ReceiptData_list ''not json'' = Inl SyntaxError"
  "Unmarshal_ReceiptData ''\"not json\"'' = Inl UnmarshalTypeError"
  "Unmarshal_ReceiptData_list ''\"not json\"'' = Inl UnmarshalTypeError"
  by code_simp+

lemma parse_null:
  "parse_json ''null'' = Some JNull"
  "Unmarshal_ReceiptData ''null'' = Inr zero_ReceiptData"
  by code_simp+

lemma storeReceipt_array: "storeReceipt (JArray vs) r = (r, True)"
  by (simp add: storeReceipt_def)

lemma parse_array_general:
  assumes "parse_json t = Some (JArray vs)" "\<not> list_ex (\<lambda>v. snd (storeReceipt v zero_ReceiptData)) vs"
  shows "parseGeminiResponse t = Inr (map (\<lambda>v. fst (storeReceipt v zero_ReceiptData)) vs)"
  using assms
  by (simp add: parseGeminiResponse_def Unmarshal_ReceiptData_def Unmarshal_ReceiptData_list_def
      storeReceipt_array list_ex_iff comp_def)

lemma parse_object_general:
  assumes "parse_json t = Some (JObject ms)" "\<not> snd (storeReceipt (JObject ms) zero_ReceiptData)"
  shows "parseGeminiResponse t = Inr [fst (storeReceipt (JObject ms) zero_ReceiptData)]"
  using assms
  by (cases "storeReceipt (JObject ms) zero_ReceiptData")
     (simp add: parseGeminiResponse_def Unmarshal_ReceiptData_def)

lemma parse_invalid_general:
  assumes "parse_json t = None"
  shows "parseGeminiResponse t = Inl ParseError"
  using assms
  by (simp add: parseGeminiResponse_def Unmarshal_ReceiptData_def Unmarshal_ReceiptData_list_def)

lemma parse_tree_array:
  "parse_json ex_json_array =
     Some (JArray [JObject [(''date'', JString ''2024-01-05''), (''vendor'', JString ''ACME''),
                            (''category'', JString ''Grocery''), (''total_amount'', JNumber ''1200'')],
                   JObject [(''date'', JString ''2024-01-06''), (''vendor'', JString ''A B''),
                            (''category'', JString ''Tax''), (''total_amount'', JNumber ''80'')]])"
  by code_simp

lemma parse_tree_not_json: "parse_json ''not json'' = None"
  by code_simp

lemma store_ex:
  "storeReceipt (JObject [(''date'', JString ''2024-01-05''), (''vendor'', JString ''ACME''),
                            (''category'', JString ''Grocery''), (''total_amount'', JNumber ''1200'')]) zero_ReceiptData
    = (\<lparr>Date = ''2024-01-05'', Vendor = ''ACME'', Category = ''Grocery'', Amount = 1200\<rparr>, False)"
  "storeReceipt (JObject [(''date'', JString ''2024-01-06''), (''vendor'', JString ''A B''),
                            (''category'', JString ''Tax''), (''total_amount'', JNumber ''80'')]) zero_ReceiptData
    = (\<lparr>Date = ''2024-01-06'', Vendor = ''A B'', Category = ''Tax'', Amount = 80\<rparr>, False)"
  by code_simp+

text \<open>
  C5. For every text, \<open>parseGeminiResponse\<close> first decodes it as one record and, when
  that succeeds, returns the sequence of that one record; when it fails, it decodes
  the text as an array of records and returns that sequence; when both fail it returns
  the parse error. By the value of the text: a text that is not JSON gives the parse
  error, an object whose fields have the right types gives one record, an array of
  such elements gives one record for each element, in order. In particular the
  single-object example yields one record, an array of two objects yields two records,
  and the text \<open>not json\<close> (also as a JSON string) yields the parse error.
\<close>

theorem parseGeminiResponse_shapes:
  "(\<forall>single. Unmarshal_ReceiptData jsonText = Inr single \<longrightarrow> parseGeminiResponse jsonText = Inr [single])
   \<and> (\<forall>e list. Unmarshal_ReceiptData jsonText = Inl e \<and> Unmarshal_ReceiptData_list jsonText = Inr list \<longrightarrow>
         parseGeminiResponse jsonText = Inr list)
   \<and> (\<forall>e1 e2. Unmarshal_ReceiptData jsonText = Inl e1 \<and> Unmarshal_ReceiptData_list jsonText = Inl e2 \<longrightarrow>
         parseGeminiResponse jsonText = Inl ParseError)
   \<and> (parse_json jsonText = None \<longrightarrow> parseGeminiResponse jsonText = Inl ParseError)
   \<and> (\<forall>ms. parse_json jsonText = Some (JObject ms) \<and> \<not> snd (storeReceipt (JObject ms) zero_ReceiptData) \<longrightarrow>
         parseGeminiResponse jsonText = Inr [fst (storeReceipt (JObject ms) zero_ReceiptData)])
   \<and> (\<forall>vs. parse_json jsonText = Some (JArray vs)
          \<and> \<not> list_ex (\<lambda>v. snd (storeReceipt v zero_ReceiptData)) vs \<longrightarrow>
         parseGeminiResponse jsonText = Inr (map (\<lambda>v. fst (storeReceipt v zero_ReceiptData)) vs))
   \<and> parseGeminiResponse ex_json
       = Inr [\<lparr>Date = ''2024-01-05'', Vendor = ''ACME'', Category = ''Grocery'', Amount = 1200\<rparr>]
   \<and> (\<exists>a b. parseGeminiResponse ex_json_array = Inr [a, b])
   \<and> parseGeminiResponse ''not json'' = Inl ParseError
   \<and> parseGeminiResponse ''\"not json\"'' = Inl ParseError"
proof -
  have a: "\<forall>single. Unmarshal_ReceiptData jsonText = Inr single \<longrightarrow> parseGeminiResponse jsonText = Inr [single]"
    by (simp add: parseGeminiResponse_def)
  have b: "\<forall>e list. Unmarshal_ReceiptData jsonText = Inl e \<and> Unmarshal_ReceiptData_list jsonText = Inr list \<longrightarrow>
         parseGeminiResponse jsonText = Inr list"
    by (simp add: parseGeminiResponse_def)
  have c: "\<forall>e1 e2. Unmarshal_ReceiptData jsonText = Inl e1 \<and> Unmarshal_ReceiptData_list jsonText = Inl e2 \<longrightarrow>
         parseGeminiResponse jsonText = Inl ParseError"
    by (simp add: parseGeminiResponse_def)
  have d: "parse_json jsonText = None \<longrightarrow> parseGeminiResponse jsonText = Inl ParseError"
    using parse_invalid_general by blast
  have e: "\<forall>ms. parse_json jsonText = Some (JObject ms) \<and> \<not> snd (storeReceipt (JObject ms) zero_ReceiptData) \<longrightarrow>
         parseGeminiResponse jsonText = Inr [fst (storeReceipt (JObject ms) zero_ReceiptData)]"
    using parse_object_general by blast
  have f: "\<forall>vs. parse_json jsonText = Some (JArray vs)
          \<and> \<not> list_ex (\<lambda>v. snd (storeReceipt v zero_ReceiptData)) vs \<longrightarrow>
         parseGeminiResponse jsonText = Inr (map (\<lambda>v. fst (storeReceipt v zero_ReceiptData)) vs)"
    using parse_array_general by blast
  have g: "parseGeminiResponse ex_json
       = Inr [\<lparr>Date = ''2024-01-05'', Vendor = ''ACME'', Category = ''Grocery'', Amount = 1200\<rparr>]"
    "\<exists>a b. parseGeminiResponse ex_json_array = Inr [a, b]"
    "parseGeminiResponse ''not json'' = Inl ParseError"
    "parseGeminiResponse ''\"not json\"'' = Inl ParseError"
    by (simp_all add: parseGeminiResponse_def parse_ex_json parse_ex_array parse_not_json)
  from a b c d e f g show ?thesis by (intro conjI)
qed

theorem parseGeminiResponse_shapes_witness:
  "Unmarshal_ReceiptData ex_json
     = Inr \<lparr>Date = ''2024-01-05'', Vendor = ''ACME'', Category = ''Grocery'', Amount = 1200\<rparr>
   \<and> parseGeminiResponse ex_json
     = Inr [\<lparr>Date = ''2024-01-05'', Vendor = ''ACME'', Category = ''Grocery'', Amount = 1200\<rparr>]
   \<and> Unmarshal_ReceiptData ex_json_array = Inl UnmarshalTypeError
   \<and> parseGeminiResponse ex_json_array
     = Inr [\<lparr>Date = ''2024-01-05'', Vendor = ''ACME'', Category = ''Grocery'', Amount = 1200\<rparr>,
            \<lparr>Date = ''2024-01-06'', Vendor = ''A B'', Category = ''Tax'', Amount = 80\<rparr>]
   \<and> Unmarshal_ReceiptData ''not json'' = Inl SyntaxError
   \<and> Unmarshal_ReceiptData_list ''not json'' = Inl SyntaxError
   \<and> parse_json ''not json'' = None
   \<and> parseGeminiResponse ''not json'' = Inl ParseError"
proof -
  from parseGeminiResponse_shapes[of ex_json, THEN conjunct1, rule_format, OF parse_ex_json]
  have a: "parseGeminiResponse ex_json
     = Inr [\<lparr>Date = ''2024-01-05'', Vendor = ''ACME'', Category = ''Grocery'', Amount = 1200\<rparr>]" .
  \<comment> \<open>the array, by the two attempts and by its value\<close>
  from parseGeminiResponse_shapes[of ex_json_array, THEN conjunct2, THEN conjunct1, rule_format,
      OF conjI[OF parse_ex_array]]
  have b: "parseGeminiResponse ex_json_array
     = Inr [\<lparr>Date = ''2024-01-05'', Vendor = ''ACME'', Category = ''Grocery'', Amount = 1200\<rparr>,
            \<lparr>Date = ''2024-01-06'', Vendor = ''A B'', Category = ''Tax'', Amount = 80\<rparr>]" .
  have ok: "\<not> list_ex (\<lambda>v. snd (storeReceipt v zero_ReceiptData))
      [JObject [(''date'', JString ''2024-01-05''), (''vendor'', JString ''ACME''),
                (''category'', JString ''Grocery''), (''total_amount'', JNumber ''1200'')],
       JObject [(''date'', JString ''2024-01-06''), (''vendor'', JString ''A B''),
                (''category'', JString ''Tax''), (''total_amount'', JNumber ''80'')]]"
    by (simp add: store_ex)
  from parseGeminiResponse_shapes[of ex_json_array, THEN conjunct2, THEN conjunct2, THEN conjunct2,
      THEN conjunct2, THEN conjunct2, THEN conjunct1, rule_format, OF conjI[OF parse_tree_array ok]]
  have b': "parseGeminiResponse ex_json_array
     = Inr [\<lparr>Date = ''2024-01-05'', Vendor = ''ACME'', Category = ''Grocery'', Amount = 1200\<rparr>,
            \<lparr>Date = ''2024-01-06'', Vendor = ''A B'', Category = ''Tax'', Amount = 80\<rparr>]"
    by (simp add: store_ex)
  \<comment> \<open>no JSON at all\<close>
  from parseGeminiResponse_shapes[of "''not json''", THEN conjunct2, THEN conjunct2, THEN conjunct1, rule_format,
      OF conjI[OF parse_not_json(1,2)]]
  have c: "parseGeminiResponse ''not json'' = Inl ParseError" .
  from parseGeminiResponse_shapes[of "''not json''", THEN conjunct2, THEN conjunct2, THEN conjunct2,
      THEN conjunct1, rule_format, OF parse_tree_not_json]
  have c': "parseGeminiResponse ''not json'' = Inl ParseError" .
  from parse_ex_json a parse_ex_array(1) b' parse_not_json(1,2) parse_tree_not_json c' show ?thesis
    by (intro conjI)
qed

subsection \<open>Whole tasks and the in-flight set\<close>

lemma parse_null_list: "parseGeminiResponse ''null'' = Inr [zero_ReceiptData]"
  by (simp add: parseGeminiResponse_def parse_null)

lemma wait_steady: "waitForStableFile ex_wait_steady = Stable"
  by (simp add: wait_eval ex_wait_steady_def)

lemma wait_gone: "waitForStableFile ex_wait_gone = Disappeared"
  by (simp add: wait_eval ex_wait_gone_def)

lemma ext_pdf: "validExt (ToLower (Ext ''/watch/scan.pdf''))" "\<not> validExt (ToLower (Ext ''/watch/notes.txt''))"
  by (simp_all add: validExt_def ToLower_def lower_char_def Ext_def)

lemmas task_eval = processEvent_def processBody_def Let_def wait_steady wait_gone cloud_eval
  validExt_def ToLower_def lower_char_def
  parse_null_list ex_parse zero_ReceiptData_def commit_eval ex_world_txt_def wait_error_text_def

lemma task_null:
  "map_option (\<lambda>(a, w', c'). (files w' ''/watch/scan.pdf'',
        files w' (''/dest/Unsorted/2026-11-01__0'' @ yen @ ''.pdf''), files w' ''/dest/originals/scan.pdf''))
     (processEvent 3 ''/watch/scan.pdf'' ex_wait_steady Map.empty ex_world ex_cloud_null)
   = Some (None, Some ''%PDF-1.7'', Some ''%PDF-1.7'')"
  by (simp add: task_eval)

lemma task_success:
  "map_option (\<lambda>(a, w', c'). last (logs w'))
     (processEvent 3 ''/watch/scan.pdf'' ex_wait_steady [''/watch/scan.pdf'' \<mapsto> True] ex_world ex_cloud)
   = Some (LogArchived ''/dest/originals/scan.pdf'')"
  by (simp add: task_eval)

lemma task_failure:
  "map_option (\<lambda>(a, w', c'). last (logs w'))
     (processEvent 3 ''/watch/scan.pdf'' ex_wait_gone [''/watch/scan.pdf'' \<mapsto> True] ex_world ex_cloud)
   = Some (LogAborted ''/watch/scan.pdf'' ''file disappeared'')"
  by (simp add: task_eval)

lemma task_rejected:
  "map_option (\<lambda>(a, w', c'). logs w')
     (processEvent 3 ''/watch/notes.txt'' ex_wait_steady [''/watch/notes.txt'' \<mapsto> True] ex_world_txt ex_cloud)
   = Some [LogDetected ''/watch/notes.txt'']"
  by (simp add: task_eval)

lemma run_snoc: "run (as @ [a]) = act a (run as)"
  by (simp add: run_def)

lemma onEvent_inv:
  assumes "distinct (running s)" "set (running s) = dom (activeFiles s)"
  shows "distinct (running (onEvent e s)) \<and> set (running (onEvent e s)) = dom (activeFiles (onEvent e s))"
proof (cases "Has e Write \<or> Has e Create \<or> Has e Rename \<or> Has e Chmod")
  case rel: True
  show ?thesis
  proof (cases "activeFiles s (Event_Name e)")
    case None
    then have "Event_Name e \<notin> set (running s)" using assms(2) by auto
    with onEvent_relevant_new[OF rel None] assms show ?thesis by auto
  next
    case (Some b)
    then have "activeFiles s (Event_Name e) \<noteq> None" by simp
    from onEvent_relevant_loaded[OF rel this] assms show ?thesis by simp
  qed
next
  case False
  from onEvent_other[OF this] assms show ?thesis by simp
qed

lemma onReturn_inv:
  assumes "distinct (running s)" "set (running s) = dom (activeFiles s)"
  shows "distinct (running (onReturn p s)) \<and> set (running (onReturn p s)) = dom (activeFiles (onReturn p s))"
  using assms by (auto simp: onReturn_def Delete_def)

lemma run_inv: "distinct (running (run as)) \<and> set (running (run as)) = dom (activeFiles (run as))"
proof (induction as rule: rev_induct)
  case Nil
  show ?case by (simp add: run_def initial_def)
next
  case (snoc a as)
  show ?case
  proof (cases a)
    case (Notify e)
    with snoc onEvent_inv[of "run as" e] show ?thesis by (simp add: run_snoc)
  next
    case (Return p)
    with snoc onReturn_inv[of "run as" p] show ?thesis by (simp add: run_snoc)
  qed
qed

lemma distinct_count_le1: "distinct xs \<Longrightarrow> count_list xs x \<le> 1"
  by (induction xs) auto

lemma processEvent_releases:
  assumes "processEvent fuel p env active w c = Some (active', w', c')"
  shows "active' = active(p := None)"
  using assms by (auto simp: processEvent_def Delete_def split: option.splits)

text \<open>
  C2. In every state that the event loop and its tasks reach, by notifications and
  task returns in any order, no path has more than one running task, and the paths
  with a running task are exactly the paths in the in-flight set. An event for a
  path in the set starts no task and leaves the set as it is. \<open>processEvent\<close> removes
  the entry of its path whenever it returns, whatever the outcome. Once the task of a
  path has returned, the path is not in the set, and the next relevant event for it
  starts a new task.
\<close>

theorem inflight_at_most_once:
  "distinct (running (run as))
   \<and> count_list (running (run as)) p \<le> 1
   \<and> set (running (run as)) = dom (activeFiles (run as))
   \<and> (\<forall>e. activeFiles (run as) (Event_Name e) \<noteq> None \<longrightarrow>
         running (onEvent e (run as)) = running (run as)
         \<and> activeFiles (onEvent e (run as)) = activeFiles (run as))
   \<and> (\<forall>fuel env active w c active' w' c'.
         processEvent fuel p env active w c = Some (active', w', c') \<longrightarrow> active' = active(p := None))
   \<and> (p \<in> set (running (run as)) \<longrightarrow>
         activeFiles (run (as @ [Return p])) p = None
         \<and> p \<notin> set (running (run (as @ [Return p])))
         \<and> (\<forall>e. Event_Name e = p \<and> (Has e Write \<or> Has e Create \<or> Has e Rename \<or> Has e Chmod) \<longrightarrow>
               running (run (as @ [Return p, Notify e])) = running (run (as @ [Return p])) @ [p]
               \<and> activeFiles (run (as @ [Return p, Notify e])) p \<noteq> None))"
proof -
  note inv = run_inv[of as]
  have a: "distinct (running (run as))" using inv by blast
  have b: "count_list (running (run as)) p \<le> 1"
    using a by (rule distinct_count_le1)
  have c: "set (running (run as)) = dom (activeFiles (run as))" using inv by blast
  have d: "\<forall>e. activeFiles (run as) (Event_Name e) \<noteq> None \<longrightarrow>
         running (onEvent e (run as)) = running (run as)
         \<and> activeFiles (onEvent e (run as)) = activeFiles (run as)"
    by (auto simp: onEvent_def LoadOrStore_def)
  have e: "\<forall>fuel env active w c active' w' c'.
         processEvent fuel p env active w c = Some (active', w', c') \<longrightarrow> active' = active(p := None)"
    using processEvent_releases by blast
  have f: "p \<in> set (running (run as)) \<longrightarrow>
         activeFiles (run (as @ [Return p])) p = None
         \<and> p \<notin> set (running (run (as @ [Return p])))
         \<and> (\<forall>e. Event_Name e = p \<and> (Has e Write \<or> Has e Create \<or> Has e Rename \<or> Has e Chmod) \<longrightarrow>
               running (run (as @ [Return p, Notify e])) = running (run (as @ [Return p])) @ [p]
               \<and> activeFiles (run (as @ [Return p, Notify e])) p \<noteq> None)"
  proof
    assume pin: "p \<in> set (running (run as))"
    let ?s = "run (as @ [Return p])"
    have s: "?s = onReturn p (run as)" by (simp add: run_snoc)
    have 1: "activeFiles ?s p = None" using pin by (simp add: s onReturn_def Delete_def)
    have 2: "p \<notin> set (running ?s)" using pin a by (simp add: s onReturn_def)
    have 3: "\<forall>e. Event_Name e = p \<and> (Has e Write \<or> Has e Create \<or> Has e Rename \<or> Has e Chmod) \<longrightarrow>
               running (run (as @ [Return p, Notify e])) = running ?s @ [p]
               \<and> activeFiles (run (as @ [Return p, Notify e])) p \<noteq> None"
    proof (intro allI impI, elim conjE)
      fix e assume n: "Event_Name e = p" and rel: "Has e Write \<or> Has e Create \<or> Has e Rename \<or> Has e Chmod"
      have "run (as @ [Return p, Notify e]) = onEvent e ?s"
        using run_snoc[of "as @ [Return p]" "Notify e"] by simp
      moreover have "activeFiles ?s (Event_Name e) = None" using 1 n by simp
      ultimately show "running (run (as @ [Return p, Notify e])) = running ?s @ [p]
               \<and> activeFiles (run (as @ [Return p, Notify e])) p \<noteq> None"
        using onEvent_relevant_new[OF rel, of ?s] n by simp
    qed
    from 1 2 3 show "activeFiles ?s p = None \<and> p \<notin> set (running ?s)
         \<and> (\<forall>e. Event_Name e = p \<and> (Has e Write \<or> Has e Create \<or> Has e Rename \<or> Has e Chmod) \<longrightarrow>
               running (run (as @ [Return p, Notify e])) = running ?s @ [p]
               \<and> activeFiles (run (as @ [Return p, Notify e])) p \<noteq> None)"
      by (intro conjI)
  qed
  from a b c d e f show ?thesis by (intro conjI)
qed

theorem inflight_at_most_once_witness:
  "run [Notify ex_create] = onEvent ex_create initial
   \<and> running (run [Notify ex_create]) = [''/watch/scan.pdf'']
   \<and> activeFiles (run [Notify ex_create]) (Event_Name ex_write_chmod) \<noteq> None
   \<and> running (onEvent ex_write_chmod (run [Notify ex_create])) = running (run [Notify ex_create])
   \<and> map_option fst (processEvent 3 ''/watch/scan.pdf'' ex_wait_steady [''/watch/scan.pdf'' \<mapsto> True] ex_world ex_cloud)
       = Some Map.empty
   \<and> map_option (\<lambda>(a, w', c'). last (logs w'))
        (processEvent 3 ''/watch/scan.pdf'' ex_wait_steady [''/watch/scan.pdf'' \<mapsto> True] ex_world ex_cloud)
       = Some (LogArchived ''/dest/originals/scan.pdf'')
   \<and> map_option fst (processEvent 3 ''/watch/scan.pdf'' ex_wait_gone [''/watch/scan.pdf'' \<mapsto> True] ex_world ex_cloud)
       = Some Map.empty
   \<and> map_option (\<lambda>(a, w', c'). last (logs w'))
        (processEvent 3 ''/watch/scan.pdf'' ex_wait_gone [''/watch/scan.pdf'' \<mapsto> True] ex_world ex_cloud)
       = Some (LogAborted ''/watch/scan.pdf'' ''file disappeared'')
   \<and> map_option fst (processEvent 3 ''/watch/notes.txt'' ex_wait_steady [''/watch/notes.txt'' \<mapsto> True] ex_world_txt ex_cloud)
       = Some Map.empty
   \<and> map_option (\<lambda>(a, w', c'). logs w')
        (processEvent 3 ''/watch/notes.txt'' ex_wait_steady [''/watch/notes.txt'' \<mapsto> True] ex_world_txt ex_cloud)
       = Some [LogDetected ''/watch/notes.txt'']
   \<and> ''/watch/scan.pdf'' \<in> set (running (run [Notify ex_create]))
   \<and> activeFiles (run ([Notify ex_create] @ [Return ''/watch/scan.pdf''])) ''/watch/scan.pdf'' = None
   \<and> running (run ([Notify ex_create] @ [Return ''/watch/scan.pdf''])) = []
   \<and> running (run ([Notify ex_create] @ [Return ''/watch/scan.pdf'', Notify ex_rename])) = [''/watch/scan.pdf'']"
proof -
  let ?S = "''/watch/scan.pdf''" and ?T = "''/watch/notes.txt''"
  let ?as = "[Notify ex_create]"
  have r0: "run ?as = onEvent ex_create initial" by (simp add: run_def)
  have rel: "Has ex_create Write \<or> Has ex_create Create \<or> Has ex_create Rename \<or> Has ex_create Chmod"
    using ev_simps(1) by blast
  have i0: "activeFiles initial (Event_Name ex_create) = None" by (simp add: initial_def)
  have r1: "running (run ?as) = [?S]" "activeFiles (run ?as) = [?S \<mapsto> True]"
    unfolding r0 onEvent_relevant_new[OF rel i0] by (simp_all add: initial_def ev_simps)
  note t = inflight_at_most_once[of ?as ?S]
  \<comment> \<open>a second event for the path in flight\<close>
  have d1: "activeFiles (run ?as) (Event_Name ex_write_chmod) \<noteq> None" by (simp add: r1 ev_simps)
  from t[THEN conjunct2, THEN conjunct2, THEN conjunct2, THEN conjunct1, rule_format, OF d1]
  have d2: "running (onEvent ex_write_chmod (run ?as)) = running (run ?as)" by (rule conjunct1)
  \<comment> \<open>the task returns: success, failure, filter rejection\<close>
  note rl = t[THEN conjunct2, THEN conjunct2, THEN conjunct2, THEN conjunct2, THEN conjunct1, rule_format]
  obtain a1 w1 c1 where p1: "processEvent 3 ?S ex_wait_steady [?S \<mapsto> True] ex_world ex_cloud = Some (a1, w1, c1)"
    using task_success by (cases "processEvent 3 ?S ex_wait_steady [?S \<mapsto> True] ex_world ex_cloud") auto
  from rl[OF p1] p1
  have e1: "map_option fst (processEvent 3 ?S ex_wait_steady [?S \<mapsto> True] ex_world ex_cloud) = Some Map.empty"
    by simp
  obtain a2 w2 c2 where p2: "processEvent 3 ?S ex_wait_gone [?S \<mapsto> True] ex_world ex_cloud = Some (a2, w2, c2)"
    using task_failure by (cases "processEvent 3 ?S ex_wait_gone [?S \<mapsto> True] ex_world ex_cloud") auto
  from rl[OF p2] p2
  have e2: "map_option fst (processEvent 3 ?S ex_wait_gone [?S \<mapsto> True] ex_world ex_cloud) = Some Map.empty"
    by simp
  obtain a3 w3 c3 where p3: "processEvent 3 ?T ex_wait_steady [?T \<mapsto> True] ex_world_txt ex_cloud = Some (a3, w3, c3)"
    using task_rejected by (cases "processEvent 3 ?T ex_wait_steady [?T \<mapsto> True] ex_world_txt ex_cloud") auto
  from inflight_at_most_once[of ?as ?T, THEN conjunct2, THEN conjunct2, THEN conjunct2, THEN conjunct2,
      THEN conjunct1, rule_format, OF p3] p3
  have e3: "map_option fst (processEvent 3 ?T ex_wait_steady [?T \<mapsto> True] ex_world_txt ex_cloud) = Some Map.empty"
    by simp
  \<comment> \<open>after the return a fresh event starts a task\<close>
  have m: "?S \<in> set (running (run ?as))" by (simp add: r1)
  note f = t[THEN conjunct2, THEN conjunct2, THEN conjunct2, THEN conjunct2, THEN conjunct2, rule_format, OF m]
  from f have f1: "activeFiles (run (?as @ [Return ?S])) ?S = None" by (rule conjunct1)
  have f2: "running (run (?as @ [Return ?S])) = []"
    using run_snoc[of ?as "Return ?S"] r1 by (simp add: onReturn_def)
  have n3: "Event_Name ex_rename = ?S \<and> (Has ex_rename Write \<or> Has ex_rename Create \<or> Has ex_rename Rename \<or> Has ex_rename Chmod)"
    using ev_simps by blast
  from f[THEN conjunct2, THEN conjunct2, rule_format, OF n3] f2
  have f3: "running (run (?as @ [Return ?S, Notify ex_rename])) = [?S]" by simp
  from r0 r1(1) d1 d2 e1 task_success e2 task_failure e3 task_rejected m f1 f2 f3
  show ?thesis by (intro conjI)
qed

text \<open>
  C10. The text \<open>null\<close> is valid JSON and neither an object nor an array, yet the first
  decoding attempt succeeds on it: \<open>parseGeminiResponse\<close> returns one record with empty
  date, vendor and category and amount 0, not the parse error. Its destination is
  \<open><dest>/Unsorted/<today>__0<marker><ext>\<close>, and a task that receives this reply
  commits that file and archives the original.
\<close>

theorem null_response_committed:
  "parse_json ''null'' = Some JNull
   \<and> Unmarshal_ReceiptData ''null'' = Inr \<lparr>Date = [], Vendor = [], Category = [], Amount = 0\<rparr>
   \<and> parseGeminiResponse ''null'' = Inr [\<lparr>Date = [], Vendor = [], Category = [], Amount = 0\<rparr>]
   \<and> processedPath w srcPath \<lparr>Date = [], Vendor = [], Category = [], Amount = 0\<rparr>
       = Join (Join (destDir w) ''Unsorted'') (today w @ ''__0'' @ yen @ Ext srcPath)
   \<and> map_option (\<lambda>(a, w', c'). (files w' ''/watch/scan.pdf'',
          files w' (''/dest/Unsorted/2026-11-01__0'' @ yen @ ''.pdf''), files w' ''/dest/originals/scan.pdf''))
        (processEvent 3 ''/watch/scan.pdf'' ex_wait_steady Map.empty ex_world ex_cloud_null)
       = Some (None, Some ''%PDF-1.7'', Some ''%PDF-1.7'')"
proof -
  have a: "parse_json ''null'' = Some JNull" by (rule parse_null(1))
  have b: "Unmarshal_ReceiptData ''null'' = Inr \<lparr>Date = [], Vendor = [], Category = [], Amount = 0\<rparr>"
    using parse_null(2) by (simp add: zero_ReceiptData_def)
  have c: "parseGeminiResponse ''null'' = Inr [\<lparr>Date = [], Vendor = [], Category = [], Amount = 0\<rparr>]"
    using parse_null_list by (simp add: zero_ReceiptData_def)
  have d: "processedPath w srcPath \<lparr>Date = [], Vendor = [], Category = [], Amount = 0\<rparr>
       = Join (Join (destDir w) ''Unsorted'') (today w @ ''__0'' @ yen @ Ext srcPath)"
    by (simp add: processedPath_def processedDir_def processedFileName_def categoryOf_def dateOf_def
        normVendor_def fmt_d_def digit_def)
  from a b c d task_null show ?thesis by (intro conjI)
qed

end
